theory Spec2Isabelle
  imports Complex_Main "HOL-Library.AList" "HOL-Library.Sublist"
begin

section \<open>JavaScript strings and arrays\<close>

text \<open>
  A JavaScript string is modelled as a \<^typ>\<open>string\<close> of ASCII characters. White space is
  what \<^verbatim>\<open>\s\<close> and \<^verbatim>\<open>trim()\<close> recognise inside ASCII: tab, line feed, vertical tab,
  form feed, carriage return and space. \<^verbatim>\<open>toUpperCase()\<close> maps \<^verbatim>\<open>a\<close>..\<^verbatim>\<open>z\<close> to
  \<^verbatim>\<open>A\<close>..\<^verbatim>\<open>Z\<close> and leaves every other ASCII character alone.
\<close>

definition isWhiteSpace :: "char \<Rightarrow> bool" where
  "isWhiteSpace c \<longleftrightarrow> (of_char c :: nat) \<in> {9, 10, 11, 12, 13, 32}"

definition upperChar :: "char \<Rightarrow> char" where
  "upperChar c = (let n = (of_char c :: nat) in if 97 \<le> n \<and> n \<le> 122 then char_of (n - 32) else c)"

definition toUpperCase :: "string \<Rightarrow> string" where
  "toUpperCase s = map upperChar s"

definition trim :: "string \<Rightarrow> string" where
  "trim s = rev (dropWhile isWhiteSpace (rev (dropWhile isWhiteSpace s)))"

text \<open>
  \<^verbatim>\<open>s.replace(/\s+/g, r)\<close>: every maximal run of white space is replaced by \<open>r\<close>.
\<close>

function replaceAllWs :: "string \<Rightarrow> string \<Rightarrow> string" where
  "replaceAllWs r [] = []"
| "replaceAllWs r (c # cs) =
     (if isWhiteSpace c then r @ replaceAllWs r (dropWhile isWhiteSpace cs)
      else c # replaceAllWs r cs)"
  by pat_completeness auto
termination
  by (relation "measure (\<lambda>(r, s). length s)") (auto simp: length_dropWhile_le less_Suc_eq_le)

text \<open>
  \<^verbatim>\<open>s.replace(/\s+/, r)\<close> without the \<^verbatim>\<open>g\<close> flag: only the first run is replaced.
\<close>

fun replaceFirstWs :: "string \<Rightarrow> string \<Rightarrow> string" where
  "replaceFirstWs r [] = []"
| "replaceFirstWs r (c # cs) =
     (if isWhiteSpace c then r @ dropWhile isWhiteSpace cs else c # replaceFirstWs r cs)"

text \<open>
  \<^verbatim>\<open>xs.slice(start, end)\<close> on integer arguments: a negative index counts from the end,
  both indices are clamped to the length, and nothing is ever out of bounds.
\<close>

definition slice :: "'a list \<Rightarrow> int \<Rightarrow> int \<Rightarrow> 'a list" where
  "slice xs start end =
     (let n = int (length xs);
          k = (if start < 0 then max (n + start) 0 else min start n);
          e = (if end < 0 then max (n + end) 0 else min end n)
      in take (nat (e - k)) (drop (nat k) xs))"

definition sliceFrom :: "'a list \<Rightarrow> int \<Rightarrow> 'a list" where
  "sliceFrom xs start = slice xs start (int (length xs))"

definition endsWith :: "string \<Rightarrow> string \<Rightarrow> bool" where
  "endsWith s searchString \<longleftrightarrow>
     length searchString \<le> length s \<and> drop (length s - length searchString) s = searchString"

section \<open>Postcode normaliser\<close>

text \<open>\<^verbatim>\<open>normalisePostcode\<close> of \<^verbatim>\<open>scripts/preprocess-postcodes.ts\<close>.\<close>

definition normalisePostcode :: "string \<Rightarrow> string" where
  "normalisePostcode raw =
     (let trimmed = replaceAllWs [] (toUpperCase (trim raw)) in
      if trimmed = [] then []
      else if length trimmed \<le> 3 then trimmed
      else
        (let outward = slice trimmed 0 (int (length trimmed) - 3);
             inward = sliceFrom trimmed (- 3)
         in outward @ '' '' @ inward))"

text \<open>\<^verbatim>\<open>normalisePostcode\<close> of the search API route.\<close>

definition normalisePostcode_route :: "string \<Rightarrow> string" where
  "normalisePostcode_route raw =
     (let trimmed = toUpperCase (trim raw);
          singleSpaced = replaceAllWs '' '' trimmed in
      if CHR '' '' \<in> set singleSpaced then singleSpaced
      else if length singleSpaced > 3 then
        (let prefix = slice singleSpaced 0 (- 3);
             suffix = sliceFrom singleSpaced (- 3)
         in prefix @ '' '' @ suffix)
      else singleSpaced)"



section \<open>JavaScript numbers\<close>

text \<open>
  A JavaScript number is \<open>NaN\<close>, an infinity, or a finite value. Finite values are
  modelled as real numbers and arithmetic on them as exact: rounding of IEEE doubles is
  outside this model.
\<close>

datatype number = NaN | Finite real | PosInfinity | NegInfinity

text \<open>\<^verbatim>\<open>a <= b\<close>: false as soon as one side is \<open>NaN\<close>.\<close>

fun num_le :: "number \<Rightarrow> number \<Rightarrow> bool" where
  "num_le NaN _ = False"
| "num_le _ NaN = False"
| "num_le (Finite a) (Finite b) = (a \<le> b)"
| "num_le NegInfinity _ = True"
| "num_le _ PosInfinity = True"
| "num_le PosInfinity _ = False"
| "num_le _ NegInfinity = False"

text \<open>\<^verbatim>\<open>a - b\<close>.\<close>

fun num_sub :: "number \<Rightarrow> number \<Rightarrow> number" where
  "num_sub NaN _ = NaN"
| "num_sub _ NaN = NaN"
| "num_sub (Finite a) (Finite b) = Finite (a - b)"
| "num_sub (Finite a) PosInfinity = NegInfinity"
| "num_sub (Finite a) NegInfinity = PosInfinity"
| "num_sub PosInfinity PosInfinity = NaN"
| "num_sub PosInfinity _ = PosInfinity"
| "num_sub NegInfinity NegInfinity = NaN"
| "num_sub NegInfinity _ = NegInfinity"

definition isNaN :: "number \<Rightarrow> bool" where
  "isNaN n \<longleftrightarrow> n = NaN"

text \<open>
  \<^verbatim>\<open>Number(x.toFixed(2))\<close>: the nearest multiple of 1/100, a tie going to the larger
  magnitude; from \<open>10\<^sup>2\<^sup>1\<close> on \<^verbatim>\<open>toFixed\<close> prints the number itself.
\<close>

definition toFixed2 :: "number \<Rightarrow> number" where
  "toFixed2 x =
     (case x of
        Finite r \<Rightarrow>
          if \<bar>r\<bar> \<ge> 10 ^ 21 then Finite r
          else if r < 0 then Finite (- (of_int \<lfloor>100 * (- r) + 1 / 2\<rfloor> / 100))
          else Finite (of_int \<lfloor>100 * r + 1 / 2\<rfloor> / 100)
      | _ \<Rightarrow> x)"

text \<open>
  \<^verbatim>\<open>xs.sort(compare)\<close>. The sort of ECMAScript is stable, and a comparator result that is
  \<open>NaN\<close> counts as zero. For a comparator that is a consistent order on the elements every
  stable sort returns the same list; the model is the insertion sort that moves an element
  past exactly the elements it compares greater than.
\<close>

fun num_pos :: "number \<Rightarrow> bool" where
  "num_pos (Finite r) = (r > 0)"
| "num_pos PosInfinity = True"
| "num_pos _ = False"

fun sort_insert :: "('a \<Rightarrow> 'a \<Rightarrow> number) \<Rightarrow> 'a \<Rightarrow> 'a list \<Rightarrow> 'a list" where
  "sort_insert compare x [] = [x]"
| "sort_insert compare x (y # ys) =
     (if num_pos (compare x y) then y # sort_insert compare x ys else x # y # ys)"

definition js_sort :: "('a \<Rightarrow> 'a \<Rightarrow> number) \<Rightarrow> 'a list \<Rightarrow> 'a list" where
  "js_sort compare xs = foldr (sort_insert compare) xs []"

text \<open>
  \<^verbatim>\<open>xs.slice(0, limit)\<close> for a number \<open>limit\<close>: the end index is truncated towards zero,
  \<open>NaN\<close> counts as 0.
\<close>

definition toIntegerOrInfinity :: "real \<Rightarrow> int" where
  "toIntegerOrInfinity r = (if r < 0 then \<lceil>r\<rceil> else \<lfloor>r\<rfloor>)"

definition sliceTo :: "'a list \<Rightarrow> number \<Rightarrow> 'a list" where
  "sliceTo xs limit =
     (case limit of
        NaN \<Rightarrow> slice xs 0 0
      | Finite r \<Rightarrow> slice xs 0 (toIntegerOrInfinity r)
      | PosInfinity \<Rightarrow> xs
      | NegInfinity \<Rightarrow> [])"

section \<open>Great-circle distance\<close>

definition toRad :: "real \<Rightarrow> real" where
  "toRad deg = (deg * pi) / 180"

text \<open>\<^verbatim>\<open>Math.atan2(y, x)\<close> on finite arguments.\<close>

definition atan2 :: "real \<Rightarrow> real \<Rightarrow> real" where
  "atan2 y x =
     (if x > 0 then arctan (y / x)
      else if x < 0 then (if y \<ge> 0 then arctan (y / x) + pi else arctan (y / x) - pi)
      else if y > 0 then pi / 2
      else if y < 0 then - (pi / 2)
      else 0)"

text \<open>\<^verbatim>\<open>haversineKm\<close> of \<^verbatim>\<open>lib/hikes.ts\<close>.\<close>

definition haversineKm :: "real \<Rightarrow> real \<Rightarrow> real \<Rightarrow> real \<Rightarrow> real" where
  "haversineKm lat1 lon1 lat2 lon2 =
     (let R = 6371;
          dLat = toRad (lat2 - lat1);
          dLon = toRad (lon2 - lon1);
          a = sin (dLat / 2) * sin (dLat / 2) +
              cos (toRad lat1) * cos (toRad lat2) * sin (dLon / 2) * sin (dLon / 2);
          c = 2 * atan2 (sqrt a) (sqrt (1 - a))
      in R * c)"

text \<open>\<^verbatim>\<open>haversineDistanceKm\<close> of the search API route.\<close>

definition haversineDistanceKm :: "real \<Rightarrow> real \<Rightarrow> real \<Rightarrow> real \<Rightarrow> real" where
  "haversineDistanceKm lat1 lon1 lat2 lon2 =
     (let R = 6371;
          dLat = toRad (lat2 - lat1);
          dLon = toRad (lon2 - lon1);
          a = sin (dLat / 2) * sin (dLat / 2) +
              cos (toRad lat1) * cos (toRad lat2) * sin (dLon / 2) * sin (dLon / 2);
          c = 2 * atan2 (sqrt a) (sqrt (1 - a))
      in R * c)"

text \<open>
  A coordinate read from a JSON file is \<open>Some x\<close> when the field holds a number and
  \<open>None\<close> when it is absent or holds anything else. Arithmetic on a missing coordinate
  gives \<open>NaN\<close>.
\<close>

definition distanceOf ::
  "(real \<Rightarrow> real \<Rightarrow> real \<Rightarrow> real \<Rightarrow> real) \<Rightarrow>
   real option \<Rightarrow> real option \<Rightarrow> real option \<Rightarrow> real option \<Rightarrow> number" where
  "distanceOf f lat1 lon1 lat2 lon2 =
     (case (lat1, lon1, lat2, lon2) of
        (Some a, Some b, Some c, Some d) \<Rightarrow> Finite (f a b c d)
      | _ \<Rightarrow> NaN)"

section \<open>Records on disk\<close>

text \<open>
  The two stores are directories of JSON files. What \<^verbatim>\<open>JSON.parse\<close> makes of a file is
  either a syntax error, the value \<^verbatim>\<open>null\<close>, or an object; an object is a record of the
  fields the search reads, its other fields travelling in the record's extension.
  Files that parse to a string, number or boolean are not modelled, and a file is looked
  up by its name in the one directory (no path separators in names). An exception is a
  value of \<open>exn\<close>; \<open>Exit n\<close> is \<^verbatim>\<open>process.exit(n)\<close>.
\<close>

datatype 'a content = Unparseable | JsonNull | JsonObject 'a

datatype exn = ENOENT | SyntaxError | TypeError | Exit nat

record start =
  lat :: "real option"
  lon :: "real option"

record hike =
  slug :: string
  name :: string
  start :: "start option"

record postcodeRecord =
  postcode :: string
  latitude :: "real option"
  longitude :: "real option"
  in_use :: "bool option"

text \<open>
  A directory lists its files in the order \<^verbatim>\<open>readdir\<close> returns them; \<open>None\<close> is a
  directory that cannot be read.
\<close>

type_synonym 'a directory = "(string \<times> 'a content) list option"

definition readdir :: "'a directory \<Rightarrow> exn + string list" where
  "readdir dir = (case dir of None \<Rightarrow> Inl ENOENT | Some fs \<Rightarrow> Inr (map fst fs))"

definition readFile :: "'a directory \<Rightarrow> string \<Rightarrow> exn + 'a content" where
  "readFile dir fileName =
     (case dir of
        None \<Rightarrow> Inl ENOENT
      | Some fs \<Rightarrow> (case map_of fs fileName of None \<Rightarrow> Inl ENOENT | Some c \<Rightarrow> Inr c))"

text \<open>\<^verbatim>\<open>JSON.parse(file) as T\<close>: \<open>None\<close> is \<^verbatim>\<open>null\<close>.\<close>

definition JSON_parse :: "'a content \<Rightarrow> exn + 'a option" where
  "JSON_parse c =
     (case c of Unparseable \<Rightarrow> Inl SyntaxError | JsonNull \<Rightarrow> Inr None | JsonObject v \<Rightarrow> Inr (Some v))"

text \<open>\<^verbatim>\<open>typeof h.start?.lat === 'number' && typeof h.start?.lon === 'number'\<close>.\<close>

definition hasNumericStart :: "'a hike_scheme \<Rightarrow> bool" where
  "hasNumericStart h = (case start h of None \<Rightarrow> False | Some s \<Rightarrow> lat s \<noteq> None \<and> lon s \<noteq> None)"

section \<open>Trail-anchored search (\<^verbatim>\<open>lib/hikes.ts\<close>)\<close>

definition getHikeBySlug :: "'a hike_scheme directory \<Rightarrow> string \<Rightarrow> 'a hike_scheme option" where
  "getHikeBySlug dir slug' =
     (case readFile dir (slug' @ ''.json'') of
        Inl err \<Rightarrow> None
      | Inr file \<Rightarrow> (case JSON_parse file of Inl err \<Rightarrow> None | Inr h \<Rightarrow> h))"

definition getAllHikes :: "'a hike_scheme directory \<Rightarrow> 'a hike_scheme list" where
  "getAllHikes dir =
     (case readdir dir of
        Inl err \<Rightarrow> []
      | Inr files \<Rightarrow>
          concat (map (\<lambda>file.
            if \<not> endsWith file ''.json'' then []
            else
              (let slug' = take (length file - 5) file in
               case getHikeBySlug dir slug' of None \<Rightarrow> [] | Some h \<Rightarrow> [h])) files))"

text \<open>
  A result of \<^verbatim>\<open>getNearbyHikes\<close> is the hike with the field
  \<^verbatim>\<open>distance_from_start_km\<close> added; the model pairs the two.
\<close>

type_synonym 'a nearbyHike = "'a hike_scheme \<times> number"

definition distance_from_start_km :: "'a nearbyHike \<Rightarrow> number" where
  "distance_from_start_km h = snd h"

text \<open>
  The callback of \<^verbatim>\<open>map\<close> reads \<^verbatim>\<open>center.start.lat\<close>: when the reference hike has
  no \<^verbatim>\<open>start\<close>, the first call raises a \<^verbatim>\<open>TypeError\<close>, which nothing catches.
\<close>

definition getNearbyHikes ::
  "'a hike_scheme directory \<Rightarrow> string \<Rightarrow> number \<Rightarrow> number \<Rightarrow> exn + 'a nearbyHike list" where
  "getNearbyHikes dir slug' maxDistanceKm limit =
     (case getHikeBySlug dir slug' of
        None \<Rightarrow> Inr []
      | Some center \<Rightarrow>
          (let all = getAllHikes dir;
               candidates = filter hasNumericStart (filter (\<lambda>h. slug h \<noteq> slug') all)
           in if candidates = [] then Inr []
              else
                (case start center of
                   None \<Rightarrow> Inl TypeError
                 | Some cs \<Rightarrow>
                     (let withDistance =
                            map (\<lambda>h. (h, distanceOf haversineKm (lat cs) (lon cs)
                                            (lat (the (start h))) (lon (the (start h))))) candidates
                      in Inr (sliceTo
                                (js_sort (\<lambda>a b. num_sub (distance_from_start_km a) (distance_from_start_km b))
                                   (filter (\<lambda>h. num_le (distance_from_start_km h) maxDistanceKm) withDistance))
                                limit)))))"

section \<open>Postcode-anchored search (the API route)\<close>

definition postcodeToFilename :: "string \<Rightarrow> string" where
  "postcodeToFilename postcode' = replaceFirstWs ''-'' postcode' @ ''.json''"

text \<open>The body of the \<^verbatim>\<open>try\<close> block of \<^verbatim>\<open>loadPostcodeRecord\<close>.\<close>

definition loadPostcodeRecord_try ::
  "'a postcodeRecord_scheme directory \<Rightarrow> string \<Rightarrow> exn + 'a postcodeRecord_scheme option" where
  "loadPostcodeRecord_try dir postcode' =
     (case readFile dir (postcodeToFilename postcode') of
        Inl err \<Rightarrow> Inl err
      | Inr file \<Rightarrow>
          (case JSON_parse file of
             Inl err \<Rightarrow> Inl err
           | Inr None \<Rightarrow> Inl TypeError
           | Inr (Some json) \<Rightarrow> if in_use json = Some False then Inr None else Inr (Some json)))"

definition loadPostcodeRecord ::
  "'a postcodeRecord_scheme directory \<Rightarrow> string \<Rightarrow> exn + 'a postcodeRecord_scheme option" where
  "loadPostcodeRecord dir postcode' =
     (case loadPostcodeRecord_try dir postcode' of Inl err \<Rightarrow> Inr None | Inr r \<Rightarrow> Inr r)"

text \<open>
  \<^verbatim>\<open>loadAllHikes\<close>: each file is read and parsed inside its own \<^verbatim>\<open>try\<close>; reading
  \<^verbatim>\<open>hike.start\<close> of \<^verbatim>\<open>null\<close> raises there and the file is skipped like an unreadable one.
\<close>

definition loadAllHikes :: "'a hike_scheme directory \<Rightarrow> 'a hike_scheme list" where
  "loadAllHikes dir =
     (case readdir dir of
        Inl err \<Rightarrow> []
      | Inr files \<Rightarrow>
          concat (map (\<lambda>fileName.
            if \<not> endsWith fileName ''.json'' then []
            else
              (case readFile dir fileName of
                 Inl err \<Rightarrow> []
               | Inr jsonStr \<Rightarrow>
                   (case JSON_parse jsonStr of
                      Inl err \<Rightarrow> []
                    | Inr None \<Rightarrow> []
                    | Inr (Some h) \<Rightarrow> if hasNumericStart h then [h] else []))) files))"

type_synonym 'a hikeWithDistance = "'a hike_scheme \<times> number"

definition distanceFromPostcodeKm :: "'a hikeWithDistance \<Rightarrow> number" where
  "distanceFromPostcodeKm h = snd h"

text \<open>
  The response of the route: an error message with its HTTP status, or status 200 with
  \<^verbatim>\<open>postcode\<close>, \<^verbatim>\<open>normalisedPostcode\<close>, \<^verbatim>\<open>maxDistanceKm\<close>, \<^verbatim>\<open>limit\<close>,
  \<^verbatim>\<open>resultCount\<close> and \<^verbatim>\<open>results\<close>, in this order.
\<close>

datatype 'a response =
    JsonError string nat
  | JsonOk string string number number nat "'a hikeWithDistance list"

fun status :: "'a response \<Rightarrow> nat" where
  "status (JsonError msg st) = st"
| "status (JsonOk pc npc d l n rs) = 200"

fun results :: "'a response \<Rightarrow> 'a hikeWithDistance list" where
  "results (JsonError msg st) = []"
| "results (JsonOk pc npc d l n rs) = rs"

text \<open>The filter, sort and cut of the route, from the loaded record and hikes.\<close>

definition searchResults ::
  "'b postcodeRecord_scheme \<Rightarrow> 'a hike_scheme list \<Rightarrow> number \<Rightarrow> number \<Rightarrow> 'a hikeWithDistance list" where
  "searchResults postcodeRecord hikes maxDistanceKm limit =
     sliceTo
       (js_sort (\<lambda>a b. num_sub (distanceFromPostcodeKm a) (distanceFromPostcodeKm b))
          (filter (\<lambda>h. num_le (distanceFromPostcodeKm h) maxDistanceKm)
             (map (\<lambda>hike.
                (hike, toFixed2 (distanceOf haversineDistanceKm
                                   (latitude postcodeRecord) (longitude postcodeRecord)
                                   (lat (the (start hike))) (lon (the (start hike)))))) hikes)))
       limit"

text \<open>
  The handler. \<open>Number\<close> is the conversion of a query string to a number; the three
  query parameters are \<open>None\<close> when absent from the URL.
\<close>

definition GET ::
  "(string \<Rightarrow> number) \<Rightarrow> 'b postcodeRecord_scheme directory \<Rightarrow> 'a hike_scheme directory \<Rightarrow>
   string option \<Rightarrow> string option \<Rightarrow> string option \<Rightarrow> exn + 'a response" where
  "GET Number postcodes hikesDir rawPostcode distanceParam limitParam =
     (let rawDistance = (case distanceParam of None \<Rightarrow> ''50'' | Some d \<Rightarrow> d);
          rawLimit = (case limitParam of None \<Rightarrow> ''20'' | Some l \<Rightarrow> l)
      in case rawPostcode of
           None \<Rightarrow> Inr (JsonError ''Missing required query parameter: postcode'' 400)
         | Some raw \<Rightarrow>
             if raw = [] then Inr (JsonError ''Missing required query parameter: postcode'' 400)
             else
               (let postcode' = normalisePostcode_route raw;
                    maxDistanceKm = Number rawDistance;
                    limit = Number rawLimit
                in if isNaN maxDistanceKm \<or> num_le maxDistanceKm (Finite 0) then
                     Inr (JsonError ''distance must be a positive number (km)'' 400)
                   else if isNaN limit \<or> num_le limit (Finite 0) then
                     Inr (JsonError ''limit must be a positive number'' 400)
                   else
                     (case loadPostcodeRecord postcodes postcode' of
                        Inl err \<Rightarrow> Inl err
                      | Inr None \<Rightarrow>
                          Inr (JsonError (''Postcode not found or not in use: '' @ postcode') 404)
                      | Inr (Some postcodeRecord) \<Rightarrow>
                          (let hikes = loadAllHikes hikesDir
                           in if length hikes = 0 then
                                Inr (JsonError ''No hikes data available yet'' 500)
                              else
                                (let results = searchResults postcodeRecord hikes maxDistanceKm limit
                                 in Inr (JsonOk (postcode postcodeRecord) postcode' maxDistanceKm limit
                                           (length results) results))))))"

section \<open>Preprocessing of the postcode table (\<^verbatim>\<open>scripts/preprocess-postcodes.ts\<close>)\<close>

definition lowerChar :: "char \<Rightarrow> char" where
  "lowerChar c = (let n = (of_char c :: nat) in if 65 \<le> n \<and> n \<le> 90 then char_of (n + 32) else c)"

definition toLowerCase :: "string \<Rightarrow> string" where
  "toLowerCase s = map lowerChar s"

text \<open>\<^verbatim>\<open>s.split(sep)\<close> for a separator of one character.\<close>

fun split :: "char \<Rightarrow> string \<Rightarrow> string list" where
  "split sep [] = [Nil]"
| "split sep (c # cs) =
     (if c = sep then [] # split sep cs
      else (case split sep cs of [] \<Rightarrow> [c # Nil] | p # ps \<Rightarrow> (c # p) # ps))"

definition splitCsvLine :: "string \<Rightarrow> string list" where
  "splitCsvLine line = map trim (split CHR '','' line)"

type_synonym HeaderMap = "string \<rightharpoonup> nat"

definition buildHeaderMap :: "string list \<Rightarrow> HeaderMap" where
  "buildHeaderMap headers =
     foldl (\<lambda>m (h, idx). m(toLowerCase h \<mapsto> idx)) Map.empty (zip headers [0..<length headers])"

text \<open>\<open>None\<close> is \<^verbatim>\<open>undefined\<close>: a column that the header lacks, or a row too short.\<close>

definition getField :: "string list \<Rightarrow> HeaderMap \<Rightarrow> string \<Rightarrow> string option" where
  "getField row headerMap name' =
     (case headerMap (toLowerCase name') of
        None \<Rightarrow> None
      | Some idx \<Rightarrow> if idx < length row then Some (row ! idx) else None)"

definition parseNumber :: "(string \<Rightarrow> number) \<Rightarrow> string option \<Rightarrow> number option" where
  "parseNumber Number value =
     (case value of
        None \<Rightarrow> None
      | Some v \<Rightarrow>
          if v = [] then None
          else
            (let trimmed = trim v in
             if trimmed = [] then None
             else (let n = Number trimmed in if isNaN n then None else Some n)))"

definition truthyFlag :: "string option \<Rightarrow> bool" where
  "truthyFlag value =
     (case value of
        None \<Rightarrow> True
      | Some v \<Rightarrow>
          if v = [] then True
          else
            (let v' = toLowerCase (trim v) in
             v' = ''y'' \<or> v' = ''yes'' \<or> v' = ''1'' \<or> v' = ''true'' \<or> v' = ''t''))"

definition isUpperLetter :: "char \<Rightarrow> bool" where
  "isUpperLetter c \<longleftrightarrow> 65 \<le> (of_char c :: nat) \<and> (of_char c :: nat) \<le> 90"

text \<open>Returns \<open>(area, district, sector)\<close>.\<close>

definition deriveAreaDistrictSector :: "string \<Rightarrow> string \<times> string \<times> string" where
  "deriveAreaDistrictSector pc =
     (let parts = split CHR '' '' pc;
          outward = hd parts;
          inward = (case tl parts of [] \<Rightarrow> None | i # rest \<Rightarrow> Some i);
          areaMatch = takeWhile isUpperLetter outward;
          area = (if areaMatch \<noteq> [] then areaMatch else outward);
          district = outward;
          sector = (case inward of
                      None \<Rightarrow> outward
                    | Some i \<Rightarrow> if length i > 0 then outward @ '' '' @ [hd i] else outward)
      in (area, district, sector))"

text \<open>
  The record written for a row: the fields the route reads, then area, district and
  sector. \<^verbatim>\<open>JSON.stringify\<close> writes an infinite number as \<^verbatim>\<open>null\<close>. The optional
  administrative columns are left out of the model.
\<close>

record preprocessedRecord = postcodeRecord +
  area :: string
  district :: string
  sector :: string

definition jsonNumber :: "number \<Rightarrow> real option" where
  "jsonNumber n = (case n of Finite r \<Rightarrow> Some r | _ \<Rightarrow> None)"

record districtIndexItem =
  item_postcode :: string
  item_latitude :: "real option"
  item_longitude :: "real option"

record preprocessState =
  lineNumber :: nat
  headerMap :: "HeaderMap option"
  districtIndex :: "(string \<times> districtIndexItem list) list"
  totalRows :: nat
  writtenByCode :: nat
  skippedNoCoords :: nat
  skippedNoPostcode :: nat
  byCode :: "(string \<times> preprocessedRecord) list"

definition initialState :: preprocessState where
  "initialState =
     \<lparr>lineNumber = 0, headerMap = None, districtIndex = [], totalRows = 0, writtenByCode = 0,
      skippedNoCoords = 0, skippedNoPostcode = 0, byCode = []\<rparr>"

text \<open>
  One turn of the loop over the lines of the table. \<^verbatim>\<open>process.exit(1)\<close> ends the run;
  writing a file is taken to succeed.
\<close>

definition processLine ::
  "(string \<Rightarrow> number) \<Rightarrow> preprocessState \<Rightarrow> string \<Rightarrow> exn + preprocessState" where
  "processLine Number st0 line =
     (let st = st0\<lparr>lineNumber := lineNumber st0 + 1\<rparr> in
      if trim line = [] then Inr st
      else if lineNumber st = 1 then Inr (st\<lparr>headerMap := Some (buildHeaderMap (splitCsvLine line))\<rparr>)
      else
        (case headerMap st of
           None \<Rightarrow> Inl (Exit 1)
         | Some hm \<Rightarrow>
             (let cols = splitCsvLine line;
                  st1 = st\<lparr>totalRows := totalRows st + 1\<rparr>;
                  rawPc = getField cols hm ''Postcode''
              in if rawPc = None \<or> rawPc = Some [] then
                   Inr (st1\<lparr>skippedNoPostcode := skippedNoPostcode st1 + 1\<rparr>)
                 else
                   (let postcode' = normalisePostcode (the rawPc) in
                    if postcode' = [] then
                      Inr (st1\<lparr>skippedNoPostcode := skippedNoPostcode st1 + 1\<rparr>)
                    else
                      (case (parseNumber Number (getField cols hm ''Latitude''),
                             parseNumber Number (getField cols hm ''Longitude'')) of
                         (Some lat', Some lon') \<Rightarrow>
                           (let inUse = truthyFlag (getField cols hm ''In Use?'');
                                (area', district', sector') = deriveAreaDistrictSector postcode';
                                record' = \<lparr>postcode = postcode', latitude = jsonNumber lat',
                                           longitude = jsonNumber lon', in_use = Some inUse,
                                           area = area', district = district', sector = sector'\<rparr>;
                                filename = replaceFirstWs ''-'' postcode';
                                item = \<lparr>item_postcode = postcode', item_latitude = jsonNumber lat',
                                        item_longitude = jsonNumber lon'\<rparr>;
                                items = (case map_of (districtIndex st1) district' of
                                           None \<Rightarrow> [] | Some its \<Rightarrow> its)
                            in Inr (st1\<lparr>byCode := byCode st1 @ [(filename @ ''.json'', record')],
                                         writtenByCode := writtenByCode st1 + 1,
                                         districtIndex :=
                                           AList.update district' (items @ [item]) (districtIndex st1)\<rparr>))
                       | _ \<Rightarrow> Inr (st1\<lparr>skippedNoCoords := skippedNoCoords st1 + 1\<rparr>))))))"

fun processLines ::
  "(string \<Rightarrow> number) \<Rightarrow> preprocessState \<Rightarrow> string list \<Rightarrow> exn + preprocessState" where
  "processLines Number st [] = Inr st"
| "processLines Number st (line # rest) =
     (case processLine Number st line of
        Inl err \<Rightarrow> Inl err
      | Inr st' \<Rightarrow> processLines Number st' rest)"

text \<open>
  The whole run: \<open>None\<close> is a table that does not exist. A run that completes returns
  the final state, whose four counters are the summary it prints.
\<close>

definition preprocess :: "(string \<Rightarrow> number) \<Rightarrow> string list option \<Rightarrow> exn + preprocessState" where
  "preprocess Number csv =
     (case csv of None \<Rightarrow> Inl (Exit 1) | Some lines \<Rightarrow> processLines Number initialState lines)"

section \<open>Enrichment batch (\<^verbatim>\<open>scripts/enrich-hikes.ts\<close>)\<close>

text \<open>
  The batch treats a hike as the JSON object it read: a list of keys with their values,
  in the order of the file.
\<close>

datatype json =
    JNull | JBool bool | JNumber real | JString string
  | JArray "json list" | JObject "(string \<times> json) list"

type_synonym jsonObject = "(string \<times> json) list"

fun truthy :: "json \<Rightarrow> bool" where
  "truthy JNull = False"
| "truthy (JBool b) = b"
| "truthy (JNumber r) = (r \<noteq> 0)"
| "truthy (JString s) = (s \<noteq> [])"
| "truthy (JArray xs) = True"
| "truthy (JObject kvs) = True"

definition shouldSkip :: "jsonObject \<Rightarrow> bool" where
  "shouldSkip h = (case map_of h ''ai'' of None \<Rightarrow> False | Some v \<Rightarrow> truthy v)"

text \<open>
  \<^verbatim>\<open>{ ...hike, ai }\<close>: the properties of the hike in their order, then \<^verbatim>\<open>ai\<close>, which
  takes the place of a property \<^verbatim>\<open>ai\<close> the hike already has.
\<close>

definition withAi :: "jsonObject \<Rightarrow> json \<Rightarrow> jsonObject" where
  "withAi h ai = AList.update ''ai'' ai h"

text \<open>
  \<^verbatim>\<open>saveHike\<close> writes the object to the file named after its slug. The name is modelled
  for a slug that is a string, and as \<^verbatim>\<open>undefined.json\<close> otherwise.
\<close>

definition slugFileName :: "jsonObject \<Rightarrow> string" where
  "slugFileName h = (case map_of h ''slug'' of Some (JString s) \<Rightarrow> s | _ \<Rightarrow> ''undefined'') @ ''.json''"

record enrichState =
  store :: "string \<rightharpoonup> jsonObject"
  saved :: "(string \<times> jsonObject) list"
  processed :: nat
  failed :: nat
  successes :: nat
  totalInput :: nat
  totalOutput :: nat

definition saveHike :: "enrichState \<Rightarrow> jsonObject \<Rightarrow> enrichState" where
  "saveHike st h =
     st\<lparr>store := (store st)(slugFileName h \<mapsto> h), saved := saved st @ [(slugFileName h, h)]\<rparr>"

text \<open>
  \<open>enrichWithRetry\<close> stands for the call of the text-generation service with its
  retries: \<open>None\<close> when it raises in the end, otherwise the payload with the two token
  counts. The body of the loop, in the version with \<^verbatim>\<open>commitCheckpoint\<close> (which has
  no counter \<^verbatim>\<open>successes\<close>) and in the version with \<^verbatim>\<open>tryCheckpointCommit\<close>, which
  also counts a failure as processed. The checkpoint commits and the usage log are not
  part of the model.
\<close>

definition enrichOne ::
  "(jsonObject \<Rightarrow> (json \<times> nat \<times> nat) option) \<Rightarrow> enrichState \<Rightarrow> jsonObject \<Rightarrow> enrichState" where
  "enrichOne enrichWithRetry st h =
     (case enrichWithRetry h of
        Some (ai, inputTokens, outputTokens) \<Rightarrow>
          (let st1 = saveHike st (withAi h ai) in
           st1\<lparr>processed := processed st1 + 1,
                totalInput := totalInput st1 + inputTokens,
                totalOutput := totalOutput st1 + outputTokens\<rparr>)
      | None \<Rightarrow> st\<lparr>failed := failed st + 1\<rparr>)"

definition enrichOne_ci ::
  "(jsonObject \<Rightarrow> (json \<times> nat \<times> nat) option) \<Rightarrow> enrichState \<Rightarrow> jsonObject \<Rightarrow> enrichState" where
  "enrichOne_ci enrichWithRetry st h =
     (case enrichWithRetry h of
        Some (ai, inputTokens, outputTokens) \<Rightarrow>
          (let st1 = saveHike st (withAi h ai) in
           st1\<lparr>processed := processed st1 + 1,
                successes := successes st1 + 1,
                totalInput := totalInput st1 + inputTokens,
                totalOutput := totalOutput st1 + outputTokens\<rparr>)
      | None \<Rightarrow> st\<lparr>processed := processed st + 1, failed := failed st + 1\<rparr>)"

text \<open>
  \<^verbatim>\<open>main\<close> after \<^verbatim>\<open>readHikes\<close>: \<open>hikes\<close> are the objects read, \<open>files\<close> the directory
  they were read from, \<open>MAX_PER_RUN\<close> the size of the batch.
\<close>

definition main ::
  "(jsonObject \<Rightarrow> (json \<times> nat \<times> nat) option) \<Rightarrow> nat \<Rightarrow> (string \<rightharpoonup> jsonObject) \<Rightarrow>
   jsonObject list \<Rightarrow> enrichState" where
  "main enrichWithRetry MAX_PER_RUN files hikes =
     (let st0 = \<lparr>store = files, saved = [], processed = 0, failed = 0, successes = 0,
                 totalInput = 0, totalOutput = 0\<rparr>;
          pending = filter (\<lambda>h. \<not> shouldSkip h) hikes
      in if length pending = 0 then st0
         else
           (let toProcess = slice pending 0 (int MAX_PER_RUN)
            in foldl (enrichOne enrichWithRetry) st0 toProcess))"

definition main_ci ::
  "(jsonObject \<Rightarrow> (json \<times> nat \<times> nat) option) \<Rightarrow> nat \<Rightarrow> (string \<rightharpoonup> jsonObject) \<Rightarrow>
   jsonObject list \<Rightarrow> enrichState" where
  "main_ci enrichWithRetry MAX_PER_RUN files hikes =
     (let st0 = \<lparr>store = files, saved = [], processed = 0, failed = 0, successes = 0,
                 totalInput = 0, totalOutput = 0\<rparr>;
          pending = filter (\<lambda>h. \<not> shouldSkip h) hikes
      in if length pending = 0 then st0
         else
           (let toProcess = slice pending 0 (int MAX_PER_RUN)
            in foldl (enrichOne_ci enrichWithRetry) st0 toProcess))"

section \<open>Auxiliary notions for the statements\<close>

text \<open>The value of a finite number, used as the sorting key in the proofs.\<close>

definition finiteValue :: "number \<Rightarrow> real" where
  "finiteValue n = (case n of Finite r \<Rightarrow> r | _ \<Rightarrow> 0)"

text \<open>
  Notation for example data: a hike file with numeric start coordinates.
\<close>

abbreviation hikeAt :: "string \<Rightarrow> real \<Rightarrow> real \<Rightarrow> hike" where
  "hikeAt s x y \<equiv> \<lparr>slug = s, name = s, start = Some \<lparr>lat = Some x, lon = Some y\<rparr>\<rparr>"

text \<open>
  A postcode file with numeric coordinates, and a conversion of query strings to numbers
  given by a table (a string outside the table converts to \<open>NaN\<close>).
\<close>

abbreviation postcodeAt :: "string \<Rightarrow> real \<Rightarrow> real \<Rightarrow> bool option \<Rightarrow> postcodeRecord" where
  "postcodeAt pc x y u \<equiv> \<lparr>postcode = pc, latitude = Some x, longitude = Some y, in_use = u\<rparr>"

abbreviation Number_of :: "(string \<times> real) list \<Rightarrow> string \<Rightarrow> number" where
  "Number_of tab \<equiv> (\<lambda>s. case map_of tab s of None \<Rightarrow> NaN | Some r \<Rightarrow> Finite r)"

text \<open>The invariant of the preprocessing loop: every counted row is accounted for.\<close>

definition rowsAccounted :: "preprocessState \<Rightarrow> bool" where
  "rowsAccounted st \<longleftrightarrow> totalRows st = writtenByCode st + skippedNoPostcode st + skippedNoCoords st"

text \<open>
  The frame condition of the enrichment: the written object holds the payload under
  \<^verbatim>\<open>ai\<close>, and its other properties are those of the hike, in the same order.
\<close>

definition onlyAiAttached :: "jsonObject \<Rightarrow> json \<Rightarrow> jsonObject \<Rightarrow> bool" where
  "onlyAiAttached h ai written \<longleftrightarrow>
     map_of written ''ai'' = Some ai \<and>
     filter (\<lambda>kv. fst kv \<noteq> ''ai'') written = filter (\<lambda>kv. fst kv \<noteq> ''ai'') h"

text \<open>What one hike of the batch makes \<^verbatim>\<open>saveHike\<close> write: one file, or nothing.\<close>

definition savedBy ::
  "(jsonObject \<Rightarrow> (json \<times> nat \<times> nat) option) \<Rightarrow> jsonObject \<Rightarrow> (string \<times> jsonObject) list" where
  "savedBy enrichWithRetry h =
     (case enrichWithRetry h of
        Some (ai, inputTokens, outputTokens) \<Rightarrow> [(slugFileName (withAi h ai), withAi h ai)]
      | None \<Rightarrow> [])"

text \<open>An example hike object and an example outcome of the enrichment service.\<close>

abbreviation exampleHike :: "string \<Rightarrow> jsonObject" where
  "exampleHike s \<equiv> [(''slug'', JString s), (''name'', JString s), (''distanceKm'', JNumber 12),
                     (''start'', JObject [(''lat'', JNumber 53), (''lon'', JNumber (-1.5))])]"

abbreviation exampleEnrich :: "jsonObject \<Rightarrow> (json \<times> nat \<times> nat) option" where
  "exampleEnrich \<equiv> (\<lambda>h. if map_of h ''slug'' = Some (JString ''b'')
                         then Some (JObject [(''summary'', JString ''A walk'')], 100, 40) else None)"

section \<open>Properties of the postcode normaliser\<close>





















section \<open>Sorting and cutting\<close>

lemma set_sort_insert: "set (sort_insert cmp x ys) = insert x (set ys)"
  by (induction ys) auto

lemma set_js_sort: "set (js_sort cmp xs) = set xs"
  by (induction xs) (simp_all add: js_sort_def set_sort_insert)

lemma length_sort_insert: "length (sort_insert cmp x ys) = Suc (length ys)"
  by (induction ys) auto

lemma length_js_sort: "length (js_sort cmp xs) = length xs"
  by (induction xs) (simp_all add: js_sort_def length_sort_insert)

lemma sort_insert_finite:
  assumes "dst x = Finite (key x)" and "\<forall>y\<in>set ys. dst y = Finite (key y)"
  shows "sort_insert (\<lambda>a b. num_sub (dst a) (dst b)) x ys = insort_key key x ys"
  using assms by (induction ys) auto

lemma js_sort_finite:
  assumes "\<forall>x\<in>set xs. dst x = Finite (key x)"
  shows "js_sort (\<lambda>a b. num_sub (dst a) (dst b)) xs = sort_key key xs"
  using assms
proof (induction xs)
  case Nil
  show ?case by (simp add: js_sort_def)
next
  case (Cons x xs)
  then have ih: "js_sort (\<lambda>a b. num_sub (dst a) (dst b)) xs = sort_key key xs" by simp
  have "js_sort (\<lambda>a b. num_sub (dst a) (dst b)) (x # xs)
      = sort_insert (\<lambda>a b. num_sub (dst a) (dst b)) x (sort_key key xs)"
    using ih by (simp add: js_sort_def)
  also have "\<dots> = insort_key key x (sort_key key xs)"
    using Cons.prems by (intro sort_insert_finite) simp_all
  finally show ?case by simp
qed

lemma num_le_Finite_iff: "num_le a (Finite m) \<longleftrightarrow> (a = NegInfinity \<or> (\<exists>x. a = Finite x \<and> x \<le> m))"
  by (cases a) auto

lemma slice_zero: "slice xs 0 e = take (nat (if e < 0 then max (int (length xs) + e) 0 else min e (int (length xs)))) xs"
  by (simp add: slice_def Let_def)

lemma sliceTo_take: "\<exists>n. sliceTo xs limit = take n xs"
proof (cases limit)
  case PosInfinity
  then have "sliceTo xs limit = take (length xs) xs" by (simp add: sliceTo_def)
  then show ?thesis by blast
next
  case NegInfinity
  then have "sliceTo xs limit = take 0 xs" by (simp add: sliceTo_def)
  then show ?thesis by blast
qed (auto simp: sliceTo_def slice_zero)

lemma sliceTo_pos_Finite:
  assumes "0 < r"
  shows "sliceTo xs (Finite r) = take (nat \<lfloor>r\<rfloor>) xs"
proof -
  have "toIntegerOrInfinity r = \<lfloor>r\<rfloor>" using assms by (simp add: toIntegerOrInfinity_def)
  moreover have "0 \<le> \<lfloor>r\<rfloor>" using assms by simp
  ultimately show ?thesis by (simp add: sliceTo_def slice_zero min_def nat_le_iff)
qed

lemma length_sliceTo:
  assumes "num_pos limit"
  shows "num_le (Finite (real (length (sliceTo xs limit)))) limit"
proof (cases limit)
  case (Finite r)
  with assms have r: "0 < r" by simp
  have "real (length (take (nat \<lfloor>r\<rfloor>) xs)) \<le> real (nat \<lfloor>r\<rfloor>)" by simp
  also have "\<dots> \<le> r" using r by (simp add: of_nat_nat)
  finally show ?thesis using Finite r by (simp add: sliceTo_pos_Finite)
qed (use assms in auto)

lemma sliceTo_all:
  assumes "num_le (Finite (real (length xs))) limit"
  shows "sliceTo xs limit = xs"
proof (cases limit)
  case (Finite r)
  with assms have le: "real (length xs) \<le> r" by simp
  then have "0 \<le> r" by (meson of_nat_0_le_iff order_trans)
  then have t: "toIntegerOrInfinity r = \<lfloor>r\<rfloor>" by (simp add: toIntegerOrInfinity_def)
  from le have "int (length xs) \<le> \<lfloor>r\<rfloor>" by (simp add: le_floor_iff)
  then show ?thesis using Finite t \<open>0 \<le> r\<close> by (simp add: sliceTo_def slice_zero min_def)
qed (use assms in \<open>auto simp: sliceTo_def\<close>)

lemma filter_sort_key_refine:
  assumes "\<And>r. P r \<Longrightarrow> f r = k"
  shows "filter P (sort_key f xs) = filter P xs"
proof -
  have r: "filter P ys = filter P (filter (\<lambda>r. f r = k) ys)" for ys
    using assms by (induction ys) auto
  have "filter P (sort_key f xs) = filter P (filter (\<lambda>r. f r = k) (sort_key f xs))" by (rule r)
  also have "\<dots> = filter P (filter (\<lambda>r. f r = k) xs)" by (simp only: sort_key_stable)
  also have "\<dots> = filter P xs" by (rule r[symmetric])
  finally show ?thesis .
qed

text \<open>
  The filter, sort and cut shared by the two searches, on a list of annotated candidates
  whose distances are numbers or \<open>NaN\<close>.
\<close>
lemma pipeline_props:
  fixes ann :: "('h \<times> number) list" and m lmt :: number
  assumes fin: "\<forall>r\<in>set ann. snd r = NaN \<or> (\<exists>x. snd r = Finite x)"
  defines "rs \<equiv> sliceTo (js_sort (\<lambda>a b. num_sub (snd a) (snd b)) (filter (\<lambda>h. num_le (snd h) m) ann)) lmt"
  shows "set rs \<subseteq> set ann"
    and "\<forall>r\<in>set rs. num_le (snd r) m"
    and "sorted_wrt (\<lambda>a b. num_le (snd a) (snd b)) rs"
    and "\<forall>d. subseq (filter (\<lambda>r. snd r = d) rs) ann"
    and "num_pos lmt \<longrightarrow> num_le (Finite (real (length rs))) lmt"
    and "num_le (Finite (real (length ann))) lmt \<longrightarrow> set rs = {r \<in> set ann. num_le (snd r) m}"
proof -
  let ?f = "filter (\<lambda>h. num_le (snd h) m) ann"
  let ?key = "\<lambda>r::('h \<times> number). finiteValue (snd r)"
  have finf: "\<forall>r\<in>set ?f. snd r = Finite (?key r)"
  proof
    fix r assume "r \<in> set ?f"
    then have "r \<in> set ann" and le: "num_le (snd r) m" by auto
    with fin have "snd r = NaN \<or> (\<exists>x. snd r = Finite x)" by blast
    with le show "snd r = Finite (?key r)" by (auto simp: finiteValue_def)
  qed
  have srt: "js_sort (\<lambda>a b. num_sub (snd a) (snd b)) ?f = sort_key ?key ?f"
    using finf by (rule js_sort_finite)
  obtain n where rs: "rs = take n (sort_key ?key ?f)"
    unfolding rs_def srt using sliceTo_take by blast
  have sub: "set rs \<subseteq> set ?f" unfolding rs by (metis set_sort set_take_subset)
  show "set rs \<subseteq> set ann" using sub by auto
  show "\<forall>r\<in>set rs. num_le (snd r) m" using sub by auto
  have "sorted (map ?key (sort_key ?key ?f))" by (rule sorted_sort_key)
  then have "sorted (map ?key rs)" unfolding rs by (simp add: take_map[symmetric] sorted_wrt_take)
  then have sk: "sorted_wrt (\<lambda>a b. ?key a \<le> ?key b) rs" by (simp add: sorted_map)
  have fk: "\<forall>r\<in>set rs. snd r = Finite (?key r)" using sub finf by blast
  show "sorted_wrt (\<lambda>a b. num_le (snd a) (snd b)) rs"
  proof (rule sorted_wrt_mono_rel[OF _ sk])
    fix a b assume ab: "a \<in> set rs" "b \<in> set rs" and le: "?key a \<le> ?key b"
    from ab fk obtain x y where xy: "snd a = Finite x" "snd b = Finite y" by blast
    with le have "x \<le> y" by (simp add: finiteValue_def)
    with xy show "num_le (snd a) (snd b)" by simp
  qed
  show "\<forall>d. subseq (filter (\<lambda>r. snd r = d) rs) ann"
  proof
    fix d
    have "prefix (filter (\<lambda>r. snd r = d) rs) (filter (\<lambda>r. snd r = d) (sort_key ?key ?f))"
      unfolding rs by (intro filter_mono_prefix take_is_prefix)
    moreover have "filter (\<lambda>r. snd r = d) (sort_key ?key ?f) = filter (\<lambda>r. snd r = d) ?f"
    proof (cases "\<exists>x. d = Finite x")
      case True
      then obtain x where d: "d = Finite x" by blast
      show ?thesis
        by (rule filter_sort_key_refine[where k = x]) (simp add: d finiteValue_def)
    next
      case False
      have none: "\<forall>r\<in>set ?f. snd r \<noteq> d"
      proof
        fix r assume "r \<in> set ?f"
        with finf have "snd r = Finite (?key r)" by blast
        with False show "snd r \<noteq> d" by metis
      qed
      then have "filter (\<lambda>r. snd r = d) ?f = []"
        unfolding filter_empty_conv by blast
      moreover from none have "\<forall>r\<in>set (sort_key ?key ?f). snd r \<noteq> d"
        unfolding set_sort .
      then have "filter (\<lambda>r. snd r = d) (sort_key ?key ?f) = []"
        unfolding filter_empty_conv by blast
      ultimately show ?thesis by (simp only:)
    qed
    ultimately have "subseq (filter (\<lambda>r. snd r = d) rs) (filter (\<lambda>r. snd r = d) ?f)"
      by (simp add: prefix_imp_subseq)
    also have "subseq (filter (\<lambda>r. snd r = d) ?f) ?f" by (rule subseq_filter_left)
    also have "subseq ?f ann" by (rule subseq_filter_left)
    finally show "subseq (filter (\<lambda>r. snd r = d) rs) ann" .
  qed
  show "num_pos lmt \<longrightarrow> num_le (Finite (real (length rs))) lmt"
    unfolding rs_def using length_sliceTo by blast
  show "num_le (Finite (real (length ann))) lmt \<longrightarrow> set rs = {r \<in> set ann. num_le (snd r) m}"
  proof
    assume a: "num_le (Finite (real (length ann))) lmt"
    have "length (js_sort (\<lambda>a b. num_sub (snd a) (snd b)) ?f) \<le> length ann"
      by (simp add: length_js_sort)
    then have "num_le (Finite (real (length (js_sort (\<lambda>a b. num_sub (snd a) (snd b)) ?f)))) lmt"
      using a by (cases lmt) auto
    then have "rs = js_sort (\<lambda>a b. num_sub (snd a) (snd b)) ?f"
      unfolding rs_def by (rule sliceTo_all)
    then show "set rs = {r \<in> set ann. num_le (snd r) m}" by (auto simp: set_js_sort)
  qed
qed

section \<open>Great-circle distance in exact arithmetic\<close>

text \<open>
  With real numbers for doubles and the mathematical functions for \<^verbatim>\<open>Math.sin\<close>,
  \<^verbatim>\<open>Math.cos\<close>, \<^verbatim>\<open>Math.sqrt\<close> and \<^verbatim>\<open>Math.atan2\<close>, the haversine term lies between
  0 and 1 and the distance is zero between identical points, symmetric and never negative.
  What the rounding of doubles does to these facts is outside the model.
\<close>

lemma haversine_route_eq: "haversineDistanceKm = haversineKm"
  by (intro ext) (simp add: haversineDistanceKm_def haversineKm_def)


lemma atan2_sin_cos:
  assumes "0 \<le> t" and "t < pi / 2"
  shows "atan2 (sqrt (sin t * sin t)) (sqrt (1 - sin t * sin t)) = t"
proof -
  have s: "0 \<le> sin t" using assms by (intro sin_ge_zero) (auto intro: less_imp_le order_trans)
  have c: "0 < cos t" using assms by (intro cos_gt_zero_pi) auto
  have "1 - sin t * sin t = cos t * cos t"
    using sin_cos_squared_add[of t] by (simp add: power2_eq_square algebra_simps)
  then have c2: "sqrt (1 - sin t * sin t) = cos t" using c by simp
  have s2: "sqrt (sin t * sin t) = sin t" using s by simp
  have "arctan (sin t / cos t) = t"
    using arctan_tan[of t] assms by (simp add: tan_def)
  then show ?thesis using c unfolding atan2_def c2 s2 by simp
qed

lemma haversineKm_same_lon:
  assumes "\<bar>lat2 - lat1\<bar> < 180"
  shows "haversineKm lat1 lon' lat2 lon' = 6371 * toRad \<bar>lat2 - lat1\<bar>"
proof -
  define t where "t = toRad \<bar>lat2 - lat1\<bar> / 2"
  have t0: "0 \<le> t" by (simp add: t_def toRad_def)
  have "\<bar>lat2 - lat1\<bar> * pi < 180 * pi" using assms by simp
  then have t1: "t < pi / 2" by (simp add: t_def toRad_def)
  have sq: "sin (toRad (lat2 - lat1) / 2) * sin (toRad (lat2 - lat1) / 2) = sin t * sin t"
  proof (cases "0 \<le> lat2 - lat1")
    case True
    then show ?thesis by (simp add: t_def)
  next
    case False
    then have "\<bar>lat2 - lat1\<bar> = - (lat2 - lat1)" by simp
    then have "toRad (lat2 - lat1) / 2 = - t" unfolding t_def toRad_def by (simp add: field_simps)
    then show ?thesis by simp
  qed
  define u where "u = toRad (lat2 - lat1) / 2"
  have z: "toRad (lon' - lon') / 2 = 0" by (simp add: toRad_def)
  have "haversineKm lat1 lon' lat2 lon' =
      6371 * (2 * atan2 (sqrt (sin u * sin u + cos (toRad lat1) * cos (toRad lat2) * sin 0 * sin 0))
                        (sqrt (1 - (sin u * sin u + cos (toRad lat1) * cos (toRad lat2) * sin 0 * sin 0))))"
    unfolding haversineKm_def Let_def u_def z ..
  also have "\<dots> = 6371 * (2 * atan2 (sqrt (sin u * sin u)) (sqrt (1 - sin u * sin u)))"
    by (simp only: sin_zero mult_zero_right add_0_right)
  also have "\<dots> = 6371 * (2 * atan2 (sqrt (sin t * sin t)) (sqrt (1 - sin t * sin t)))"
    using sq unfolding u_def by (simp only:)
  also have "\<dots> = 6371 * (2 * t)" using atan2_sin_cos[OF t0 t1] by simp
  finally show ?thesis by (simp add: t_def)
qed

lemma haversine_a_range:
  fixes p1 p2 dl :: real
  defines "a \<equiv> sin ((p2 - p1) / 2) * sin ((p2 - p1) / 2) + cos p1 * cos p2 * sin (dl / 2) * sin (dl / 2)"
  shows "0 \<le> a \<and> a \<le> 1"
proof -
  define t where "t = sin p1 * sin p2 + cos p1 * cos p2 * cos dl"
  have half: "sin (x / 2) * sin (x / 2) = (1 - cos x) / 2" for x :: real
  proof -
    have "cos x = cos (2 * (x / 2))" by simp
    also have "\<dots> = 1 - 2 * (sin (x / 2))\<^sup>2" by (rule cos_double_sin)
    finally show ?thesis by (simp add: power2_eq_square)
  qed
  have h1: "sin ((p2 - p1) / 2) * sin ((p2 - p1) / 2) = (1 - cos (p2 - p1)) / 2"
    by (rule half)
  have h2: "sin (dl / 2) * sin (dl / 2) = (1 - cos dl) / 2"
    by (rule half)
  have "a = sin ((p2 - p1) / 2) * sin ((p2 - p1) / 2) + cos p1 * cos p2 * (sin (dl / 2) * sin (dl / 2))"
    by (simp add: a_def algebra_simps)
  also have "\<dots> = (1 - cos (p2 - p1)) / 2 + cos p1 * cos p2 * ((1 - cos dl) / 2)"
    by (simp only: h1 h2)
  also have "\<dots> = (1 - t) / 2"
    by (simp add: t_def cos_diff field_simps)
  finally have a: "a = (1 - t) / 2" .
  have b1: "2 * \<bar>sin p1 * sin p2\<bar> \<le> (sin p1)\<^sup>2 + (sin p2)\<^sup>2"
    using sum_squares_bound[of "\<bar>sin p1\<bar>" "\<bar>sin p2\<bar>"] by (simp add: abs_mult)
  have b2: "2 * \<bar>cos p1 * cos p2\<bar> \<le> (cos p1)\<^sup>2 + (cos p2)\<^sup>2"
    using sum_squares_bound[of "\<bar>cos p1\<bar>" "\<bar>cos p2\<bar>"] by (simp add: abs_mult)
  have "\<bar>cos p1 * cos p2 * cos dl\<bar> \<le> \<bar>cos p1 * cos p2\<bar>"
    using abs_cos_le_one[of dl] by (simp add: abs_mult mult_left_le)
  then have "\<bar>t\<bar> \<le> \<bar>sin p1 * sin p2\<bar> + \<bar>cos p1 * cos p2\<bar>"
    unfolding t_def by linarith
  then have "2 * \<bar>t\<bar> \<le> ((sin p1)\<^sup>2 + (cos p1)\<^sup>2) + ((sin p2)\<^sup>2 + (cos p2)\<^sup>2)"
    using b1 b2 by linarith
  then have "\<bar>t\<bar> \<le> 1" by simp
  then show ?thesis unfolding a by auto
qed

lemma atan2_nonneg: "0 \<le> y \<Longrightarrow> 0 \<le> x \<Longrightarrow> 0 \<le> atan2 y x"
  by (auto simp: atan2_def zero_le_divide_iff)

lemma haversineKm_nonneg: "0 \<le> haversineKm lat1 lon1 lat2 lon2"
proof -
  define a where "a = sin (toRad (lat2 - lat1) / 2) * sin (toRad (lat2 - lat1) / 2) +
              cos (toRad lat1) * cos (toRad lat2) * sin (toRad (lon2 - lon1) / 2) * sin (toRad (lon2 - lon1) / 2)"
  have "toRad (lat2 - lat1) = toRad lat2 - toRad lat1" by (simp add: toRad_def algebra_simps diff_divide_distrib)
  then have "0 \<le> a \<and> a \<le> 1"
    unfolding a_def using haversine_a_range[of "toRad lat2" "toRad lat1" "toRad (lon2 - lon1)"] by simp
  then have "0 \<le> atan2 (sqrt a) (sqrt (1 - a))" by (intro atan2_nonneg) auto
  then show ?thesis by (simp add: haversineKm_def Let_def a_def[symmetric])
qed

lemma haversineKm_sym: "haversineKm lat1 lon1 lat2 lon2 = haversineKm lat2 lon2 lat1 lon1"
proof -
  have s: "sin (toRad (y - x) / 2) * sin (toRad (y - x) / 2) = sin (toRad (x - y) / 2) * sin (toRad (x - y) / 2)" for x y :: real
  proof -
    have "y - x = - (x - y)" by simp
    then have "toRad (y - x) / 2 = - (toRad (x - y) / 2)" unfolding toRad_def by (simp only: mult_minus_left minus_divide_left)
    then show ?thesis by simp
  qed
  show ?thesis
    unfolding haversineKm_def Let_def s[of lat1 lat2]
    using s[of lon1 lon2] by (simp add: mult.assoc mult.left_commute mult.commute)
qed

lemma pi_ge_three: "3 \<le> pi"
proof -
  have "sin (pi / 6) \<le> pi / 6" by (rule sin_x_le_x) simp
  then show ?thesis by (simp add: sin_30)
qed

lemma pi_bounds_km: "0.0106 < 6371 * toRad 0.0001" "6371 * toRad 0.0001 < 0.0142"
  using pi_ge_three pi_less_4 by (simp_all add: toRad_def)

section \<open>Properties of the two searches\<close>

lemma distanceOf_cases: "distanceOf f a b c d = NaN \<or> (\<exists>x. distanceOf f a b c d = Finite x)"
  by (auto simp: distanceOf_def split: option.splits)

lemma toFixed2_Finite:
  "toFixed2 (Finite r) =
     Finite (if \<bar>r\<bar> \<ge> 10 ^ 21 then r
             else if r < 0 then - (of_int \<lfloor>100 * (- r) + 1 / 2\<rfloor> / 100)
             else of_int \<lfloor>100 * r + 1 / 2\<rfloor> / 100)"
  by (simp add: toFixed2_def)

lemma toFixed2_NaN: "toFixed2 NaN = NaN"
  by (simp add: toFixed2_def)

lemma toFixed2_cases: "n = NaN \<or> (\<exists>x. n = Finite x) \<Longrightarrow> toFixed2 n = NaN \<or> (\<exists>x. toFixed2 n = Finite x)"
  using toFixed2_Finite toFixed2_NaN by metis

subsection \<open>Trail-anchored search\<close>

lemma getNearbyHikes_cases:
  assumes "getNearbyHikes dir slug' m lmt = Inr rs"
  shows "rs = [] \<or>
    (\<exists>center cs. getHikeBySlug dir slug' = Some center \<and> start center = Some cs \<and>
       rs = sliceTo (js_sort (\<lambda>a b. num_sub (snd a) (snd b))
              (filter (\<lambda>h. num_le (snd h) m)
                (map (\<lambda>h. (h, distanceOf haversineKm (lat cs) (lon cs) (lat (the (start h))) (lon (the (start h)))))
                   (filter hasNumericStart (filter (\<lambda>h. slug h \<noteq> slug') (getAllHikes dir)))))) lmt)"
  using assms
  by (auto simp: getNearbyHikes_def Let_def distance_from_start_km_def split: option.splits if_splits)

lemma getNearbyHikes_props:
  assumes "getNearbyHikes dir slug' m lmt = Inr rs"
  shows "\<forall>r\<in>set rs. \<exists>center cs. getHikeBySlug dir slug' = Some center \<and> start center = Some cs \<and>
            snd r = distanceOf haversineKm (lat cs) (lon cs) (lat (the (start (fst r)))) (lon (the (start (fst r))))"
    and "\<forall>r\<in>set rs. num_le (snd r) m"
    and "\<forall>r\<in>set rs. slug (fst r) \<noteq> slug' \<and> hasNumericStart (fst r)"
    and "sorted_wrt (\<lambda>a b. num_le (snd a) (snd b)) rs"
    and "\<forall>d. subseq (map fst (filter (\<lambda>r. snd r = d) rs)) (getAllHikes dir)"
    and "num_pos lmt \<longrightarrow> num_le (Finite (real (length rs))) lmt"
proof -
  from getNearbyHikes_cases[OF assms] consider
    (empty) "rs = []"
  | (run) center cs where "getHikeBySlug dir slug' = Some center" "start center = Some cs"
      "rs = sliceTo (js_sort (\<lambda>a b. num_sub (snd a) (snd b))
              (filter (\<lambda>h. num_le (snd h) m)
                (map (\<lambda>h. (h, distanceOf haversineKm (lat cs) (lon cs) (lat (the (start h))) (lon (the (start h)))))
                   (filter hasNumericStart (filter (\<lambda>h. slug h \<noteq> slug') (getAllHikes dir)))))) lmt"
    by blast
  then have "(\<forall>r\<in>set rs. \<exists>center cs. getHikeBySlug dir slug' = Some center \<and> start center = Some cs \<and>
            snd r = distanceOf haversineKm (lat cs) (lon cs) (lat (the (start (fst r)))) (lon (the (start (fst r))))) \<and>
     (\<forall>r\<in>set rs. num_le (snd r) m) \<and>
     (\<forall>r\<in>set rs. slug (fst r) \<noteq> slug' \<and> hasNumericStart (fst r)) \<and>
     sorted_wrt (\<lambda>a b. num_le (snd a) (snd b)) rs \<and>
     (\<forall>d. subseq (map fst (filter (\<lambda>r. snd r = d) rs)) (getAllHikes dir)) \<and>
     (num_pos lmt \<longrightarrow> num_le (Finite (real (length rs))) lmt)"
  proof cases
    case empty
    then show ?thesis by (cases lmt) auto
  next
    case run
    define cands where "cands = filter hasNumericStart (filter (\<lambda>h. slug h \<noteq> slug') (getAllHikes dir))"
    define ann where "ann = map (\<lambda>h. (h, distanceOf haversineKm (lat cs) (lon cs) (lat (the (start h))) (lon (the (start h))))) cands"
    have rs: "rs = sliceTo (js_sort (\<lambda>a b. num_sub (snd a) (snd b)) (filter (\<lambda>h. num_le (snd h) m) ann)) lmt"
      using run(3) by (simp add: ann_def cands_def)
    have fin: "\<forall>r\<in>set ann. snd r = NaN \<or> (\<exists>x. snd r = Finite x)"
      using distanceOf_cases by (auto simp: ann_def)
    note P = pipeline_props[OF fin, where m = m and lmt = lmt, folded rs]
    have annD: "\<forall>r\<in>set ann. fst r \<in> set cands \<and>
        snd r = distanceOf haversineKm (lat cs) (lon cs) (lat (the (start (fst r)))) (lon (the (start (fst r))))"
      by (auto simp: ann_def)
    have c1: "\<forall>r\<in>set rs. \<exists>center cs. getHikeBySlug dir slug' = Some center \<and> start center = Some cs \<and>
            snd r = distanceOf haversineKm (lat cs) (lon cs) (lat (the (start (fst r)))) (lon (the (start (fst r))))"
      using P(1) annD run(1,2) by blast
    have c3: "\<forall>r\<in>set rs. slug (fst r) \<noteq> slug' \<and> hasNumericStart (fst r)"
      using P(1) annD by (auto simp: cands_def)
    have c5: "\<forall>d. subseq (map fst (filter (\<lambda>r. snd r = d) rs)) (getAllHikes dir)"
    proof
      fix d
      have "subseq (map fst (filter (\<lambda>r. snd r = d) rs)) (map fst ann)"
        using P(4) by (simp add: subseq_map)
      also have "map fst ann = cands" by (simp add: ann_def comp_def)
      also have "subseq cands (getAllHikes dir)"
        unfolding cands_def by (meson subseq_filter_left subseq_order.trans)
      finally show "subseq (map fst (filter (\<lambda>r. snd r = d) rs)) (getAllHikes dir)" .
    qed
    show ?thesis using c1 P(2) c3 P(3) c5 P(5) by blast
  qed
  then show "\<forall>r\<in>set rs. \<exists>center cs. getHikeBySlug dir slug' = Some center \<and> start center = Some cs \<and>
            snd r = distanceOf haversineKm (lat cs) (lon cs) (lat (the (start (fst r)))) (lon (the (start (fst r))))"
    and "\<forall>r\<in>set rs. num_le (snd r) m"
    and "\<forall>r\<in>set rs. slug (fst r) \<noteq> slug' \<and> hasNumericStart (fst r)"
    and "sorted_wrt (\<lambda>a b. num_le (snd a) (snd b)) rs"
    and "\<forall>d. subseq (map fst (filter (\<lambda>r. snd r = d) rs)) (getAllHikes dir)"
    and "num_pos lmt \<longrightarrow> num_le (Finite (real (length rs))) lmt"
    by blast+
qed

lemma getNearbyHikes_no_throw:
  assumes "\<forall>center. getHikeBySlug dir slug' = Some center \<longrightarrow> start center \<noteq> None"
  shows "\<exists>rs. getNearbyHikes dir slug' m lmt = Inr rs"
  using assms by (auto simp: getNearbyHikes_def Let_def split: option.splits)

subsection \<open>Postcode-anchored search\<close>

lemma searchResults_props:
  fixes pcr :: "'b postcodeRecord_scheme" and hikes :: "'a hike_scheme list" and m lmt :: number
  defines "rs \<equiv> searchResults pcr hikes m lmt"
  shows "\<forall>r\<in>set rs. fst r \<in> set hikes \<and> snd r = toFixed2 (distanceOf haversineDistanceKm (latitude pcr) (longitude pcr)
              (lat (the (start (fst r)))) (lon (the (start (fst r)))))"
    and "\<forall>r\<in>set rs. num_le (snd r) m"
    and "sorted_wrt (\<lambda>a b. num_le (snd a) (snd b)) rs"
    and "\<forall>d. subseq (map fst (filter (\<lambda>r. snd r = d) rs)) hikes"
    and "num_pos lmt \<longrightarrow> num_le (Finite (real (length rs))) lmt"
proof -
  define ann where "ann = map (\<lambda>hike. (hike, toFixed2 (distanceOf haversineDistanceKm
          (latitude pcr) (longitude pcr) (lat (the (start hike))) (lon (the (start hike)))))) hikes"
  have rs: "rs = sliceTo (js_sort (\<lambda>a b. num_sub (snd a) (snd b)) (filter (\<lambda>h. num_le (snd h) m) ann)) lmt"
    by (simp add: rs_def searchResults_def ann_def distanceFromPostcodeKm_def)
  have fin: "\<forall>r\<in>set ann. snd r = NaN \<or> (\<exists>x. snd r = Finite x)"
    using toFixed2_cases[OF distanceOf_cases] by (auto simp: ann_def)
  note P = pipeline_props[OF fin, where m = m and lmt = lmt, folded rs]
  have annD: "\<forall>r\<in>set ann. fst r \<in> set hikes \<and> snd r = toFixed2 (distanceOf haversineDistanceKm (latitude pcr) (longitude pcr)
              (lat (the (start (fst r)))) (lon (the (start (fst r)))))"
    by (auto simp: ann_def)
  show "\<forall>r\<in>set rs. fst r \<in> set hikes \<and> snd r = toFixed2 (distanceOf haversineDistanceKm (latitude pcr) (longitude pcr)
              (lat (the (start (fst r)))) (lon (the (start (fst r)))))"
    using P(1) annD by blast
  show "\<forall>r\<in>set rs. num_le (snd r) m" by (rule P(2))
  show "sorted_wrt (\<lambda>a b. num_le (snd a) (snd b)) rs" by (rule P(3))
  show "\<forall>d. subseq (map fst (filter (\<lambda>r. snd r = d) rs)) hikes"
  proof
    fix d
    have "subseq (map fst (filter (\<lambda>r. snd r = d) rs)) (map fst ann)"
      using P(4) by (simp add: subseq_map)
    also have "map fst ann = hikes" by (simp add: ann_def comp_def)
    finally show "subseq (map fst (filter (\<lambda>r. snd r = d) rs)) hikes" .
  qed
  show "num_pos lmt \<longrightarrow> num_le (Finite (real (length rs))) lmt" by (rule P(5))
qed

lemma loadPostcodeRecord_Inr: "\<exists>r. loadPostcodeRecord dir pc = Inr r"
  by (simp add: loadPostcodeRecord_def split: sum.splits)

lemma loadAllHikes_numeric: "\<forall>h\<in>set (loadAllHikes dir). hasNumericStart h"
  by (auto simp: loadAllHikes_def split: sum.splits option.splits if_splits)

lemma not_invalid_pos: "\<not> (isNaN n \<or> num_le n (Finite 0)) \<Longrightarrow> num_pos n"
  by (cases n) (auto simp: isNaN_def)

lemma GET_total: "\<exists>resp. GET Number postcodes hikesDir rawPostcode distanceParam limitParam = Inr resp"
proof (cases rawPostcode)
  case None
  then show ?thesis by (simp add: GET_def Let_def)
next
  case (Some raw)
  obtain r where r: "loadPostcodeRecord postcodes (normalisePostcode_route raw) = Inr r"
    using loadPostcodeRecord_Inr by blast
  show ?thesis
    by (cases r) (simp_all add: GET_def Let_def Some r)
qed

lemma GET_ok:
  assumes "GET Number postcodes hikesDir rawPostcode distanceParam limitParam = Inr (JsonOk pc npc m lmt n rs)"
  shows "\<exists>raw pcr. rawPostcode = Some raw \<and> raw \<noteq> [] \<and> npc = normalisePostcode_route raw \<and>
           m = Number (case distanceParam of None \<Rightarrow> ''50'' | Some d \<Rightarrow> d) \<and>
           lmt = Number (case limitParam of None \<Rightarrow> ''20'' | Some l \<Rightarrow> l) \<and>
           num_pos m \<and> num_pos lmt \<and>
           loadPostcodeRecord postcodes npc = Inr (Some pcr) \<and> pc = postcode pcr \<and>
           loadAllHikes hikesDir \<noteq> [] \<and>
           rs = searchResults pcr (loadAllHikes hikesDir) m lmt \<and> n = length rs"
proof -
  from assms obtain raw where raw: "rawPostcode = Some raw" "raw \<noteq> []"
    by (cases rawPostcode) (auto simp: GET_def Let_def split: if_splits)
  obtain r where r: "loadPostcodeRecord postcodes (normalisePostcode_route raw) = Inr r"
    using loadPostcodeRecord_Inr by blast
  show ?thesis using assms raw r not_invalid_pos
    by (cases r) (auto simp: GET_def Let_def split: if_splits)
qed

lemma getNearbyHikes_eval:
  assumes "getHikeBySlug dir s = Some center" and "start center = Some cs"
    and "filter hasNumericStart (filter (\<lambda>h. slug h \<noteq> s) (getAllHikes dir)) = cands"
  shows "getNearbyHikes dir s m l =
     Inr (sliceTo (js_sort (\<lambda>a b. num_sub (snd a) (snd b))
            (filter (\<lambda>h. num_le (snd h) m)
               (map (\<lambda>h. (h, distanceOf haversineKm (lat cs) (lon cs) (lat (the (start h))) (lon (the (start h))))) cands))) l)"
proof (cases "cands = []")
  case True
  have "sliceTo ([]::(hike \<times> number) list) l = []"
    by (cases l) (simp_all add: sliceTo_def slice_def)
  then show ?thesis using assms True
    by (simp add: getNearbyHikes_def Let_def js_sort_def sliceTo_def slice_def split: number.splits)
next
  case False
  then show ?thesis using assms
    by (simp add: getNearbyHikes_def Let_def distance_from_start_km_def)
qed


lemma sliceTo_Nil: "sliceTo [] l = []"
  by (cases l) (simp_all add: sliceTo_def slice_def)

lemma km_1deg: "haversineKm 53 (-1.5) 54 (-1.5) = 6371 * toRad 1" "30 < 6371 * toRad 1"
proof -
  show "haversineKm 53 (-1.5) 54 (-1.5) = 6371 * toRad 1"
    using haversineKm_same_lon[of 54 53 "-1.5"] by simp
  show "30 < 6371 * toRad 1" using pi_ge_three by (simp add: toRad_def)
qed

section \<open>The geocoder\<close>

text \<open>
  C3. For every directory of postcode files and every code, \<^verbatim>\<open>loadPostcodeRecord\<close> never
  raises: it returns the record when the file exists, parses to an object and is not
  flagged \<^verbatim>\<open>in_use = false\<close>, and the same \<^verbatim>\<open>null\<close> in every other case (file missing,
  syntax error, \<^verbatim>\<open>null\<close> content, \<^verbatim>\<open>in_use = false\<close>).
\<close>

theorem loadPostcodeRecord_not_found:
  "loadPostcodeRecord dir postcode' =
     Inr (case readFile dir (postcodeToFilename postcode') of
            Inr (JsonObject json) \<Rightarrow> if in_use json = Some False then None else Some json
          | _ \<Rightarrow> None)"
  by (simp add: loadPostcodeRecord_def loadPostcodeRecord_try_def JSON_parse_def
      split: sum.splits content.splits)

theorem loadPostcodeRecord_not_found_witness:
  "loadPostcodeRecord (Some [(''S66-7RR.json'', JsonObject (postcodeAt ''S66 7RR'' 53 (-1.5) (Some True))),
                             (''AB1-2CD.json'', JsonObject (postcodeAt ''AB1 2CD'' 57 (-2) (Some False))),
                             (''ZZ1-1ZZ.json'', Unparseable)]) ''S66 7RR''
     = Inr (Some (postcodeAt ''S66 7RR'' 53 (-1.5) (Some True))) \<and>
   loadPostcodeRecord (Some [(''S66-7RR.json'', JsonObject (postcodeAt ''S66 7RR'' 53 (-1.5) (Some True))),
                             (''AB1-2CD.json'', JsonObject (postcodeAt ''AB1 2CD'' 57 (-2) (Some False))),
                             (''ZZ1-1ZZ.json'', Unparseable)]) ''AB1 2CD'' = Inr None \<and>
   loadPostcodeRecord (Some [(''S66-7RR.json'', JsonObject (postcodeAt ''S66 7RR'' 53 (-1.5) (Some True))),
                             (''AB1-2CD.json'', JsonObject (postcodeAt ''AB1 2CD'' 57 (-2) (Some False))),
                             (''ZZ1-1ZZ.json'', Unparseable)]) ''ZZ1 1ZZ'' = Inr None \<and>
   loadPostcodeRecord (Some [(''S66-7RR.json'', JsonObject (postcodeAt ''S66 7RR'' 53 (-1.5) (Some True))),
                             (''AB1-2CD.json'', JsonObject (postcodeAt ''AB1 2CD'' 57 (-2) (Some False))),
                             (''ZZ1-1ZZ.json'', Unparseable)]) ''QQ9 9QQ'' = Inr None"
proof -
  let ?dir = "Some [(''S66-7RR.json'', JsonObject (postcodeAt ''S66 7RR'' 53 (-1.5) (Some True))),
                             (''AB1-2CD.json'', JsonObject (postcodeAt ''AB1 2CD'' 57 (-2) (Some False))),
                             (''ZZ1-1ZZ.json'', Unparseable)]"
  have r1: "readFile ?dir (postcodeToFilename ''S66 7RR'') = Inr (JsonObject (postcodeAt ''S66 7RR'' 53 (-1.5) (Some True)))"
    by code_simp
  have r2: "readFile ?dir (postcodeToFilename ''AB1 2CD'') = Inr (JsonObject (postcodeAt ''AB1 2CD'' 57 (-2) (Some False)))"
    by code_simp
  have r3: "readFile ?dir (postcodeToFilename ''ZZ1 1ZZ'') = Inr Unparseable"
    by code_simp
  have r4: "readFile ?dir (postcodeToFilename ''QQ9 9QQ'') = Inl ENOENT"
    by code_simp
  show ?thesis
    using loadPostcodeRecord_not_found[of ?dir "''S66 7RR''"] loadPostcodeRecord_not_found[of ?dir "''AB1 2CD''"]
      loadPostcodeRecord_not_found[of ?dir "''ZZ1 1ZZ''"] loadPostcodeRecord_not_found[of ?dir "''QQ9 9QQ''"]
    unfolding r1 r2 r3 r4 by simp
qed

section \<open>Outcomes of the two searches\<close>

text \<open>
  C5, as stated, fails for the trail-anchored search: \<^verbatim>\<open>getNearbyHikes\<close> returns the same
  empty list for an unknown reference slug, for a negative radius, for an empty directory
  and for a directory whose only other hike lies out of the radius.
\<close>

theorem getNearbyHikes_outcomes_coincide:
  "getNearbyHikes (Some [(''a.json'', JsonObject (hikeAt ''a'' 53 (-1.5))), (''c.json'', JsonObject (hikeAt ''c'' 54 (-1.5)))]) ''nope'' (Finite 30) (Finite 4) = Inr [] \<and>
   getNearbyHikes (Some [(''a.json'', JsonObject (hikeAt ''a'' 53 (-1.5))), (''c.json'', JsonObject (hikeAt ''c'' 54 (-1.5)))]) ''a'' (Finite (-5)) (Finite 4) = Inr [] \<and>
   getNearbyHikes (Some [] :: hike directory) ''a'' (Finite 30) (Finite 4) = Inr [] \<and>
   getNearbyHikes (Some [(''a.json'', JsonObject (hikeAt ''a'' 53 (-1.5))), (''c.json'', JsonObject (hikeAt ''c'' 54 (-1.5)))]) ''a'' (Finite 30) (Finite 4) = Inr []"
proof -
  let ?dir = "(Some [(''a.json'', JsonObject (hikeAt ''a'' 53 (-1.5))), (''c.json'', JsonObject (hikeAt ''c'' 54 (-1.5)))])"
  have n: "getHikeBySlug ?dir ''nope'' = None" by code_simp
  have e: "getHikeBySlug (Some [] :: hike directory) ''a'' = None" by code_simp
  have c: "getHikeBySlug ?dir ''a'' = Some (hikeAt ''a'' 53 (-1.5))" by code_simp
  have f: "filter hasNumericStart (filter (\<lambda>h. slug h \<noteq> ''a'') (getAllHikes ?dir)) = [hikeAt ''c'' 54 (-1.5)]"
    by code_simp
  have 1: "getNearbyHikes ?dir ''nope'' (Finite 30) (Finite 4) = Inr []"
    by (simp only: getNearbyHikes_def n option.case)
  have 3: "getNearbyHikes (Some [] :: hike directory) ''a'' (Finite 30) (Finite 4) = Inr []"
    by (simp only: getNearbyHikes_def e option.case)
  have run: "getNearbyHikes ?dir ''a'' m (Finite 4) =
     Inr (sliceTo (js_sort (\<lambda>a b. num_sub (snd a) (snd b))
            (filter (\<lambda>h. num_le (snd h) m)
               (map (\<lambda>h. (h, distanceOf haversineKm (Some 53) (Some (-1.5)) (lat (the (start h))) (lon (the (start h)))))
                  [hikeAt ''c'' 54 (-1.5)]))) (Finite 4))" for m
    using getNearbyHikes_eval[OF c _ f, of "\<lparr>lat = Some 53, lon = Some (-1.5)\<rparr>"] by simp
  have 2: "getNearbyHikes ?dir ''a'' (Finite (-5)) (Finite 4) = Inr []"
    unfolding run using km_1deg by (simp add: distanceOf_def js_sort_def sliceTo_Nil)
  have 4: "getNearbyHikes ?dir ''a'' (Finite 30) (Finite 4) = Inr []"
    unfolding run using km_1deg by (simp add: distanceOf_def js_sort_def sliceTo_Nil)
  from 1 2 3 4 show ?thesis by blast
qed

text \<open>
  C5, amended to the postcode-anchored search. The handler never raises and answers, in
  this order of precedence: status 400 when the postcode parameter is missing or empty,
  or when the distance or the limit converts to \<open>NaN\<close> or to a number that is not
  positive; status 404 when the postcode is not found or not in use; status 500 when no
  hike was loaded; status 200 otherwise, also when no hike lies within the radius. The
  four statuses are pairwise different. The trail-anchored search validates nothing and
  answers every one of these situations with the empty list.
\<close>

theorem GET_outcomes:
  "\<exists>resp. GET Number postcodes hikesDir rawPostcode distanceParam limitParam = Inr resp \<and>
     status resp =
       (let maxDistanceKm = Number (case distanceParam of None \<Rightarrow> ''50'' | Some d \<Rightarrow> d);
            limit = Number (case limitParam of None \<Rightarrow> ''20'' | Some l \<Rightarrow> l)
        in if rawPostcode = None \<or> rawPostcode = Some [] then 400
           else if isNaN maxDistanceKm \<or> num_le maxDistanceKm (Finite 0) then 400
           else if isNaN limit \<or> num_le limit (Finite 0) then 400
           else if loadPostcodeRecord postcodes (normalisePostcode_route (the rawPostcode)) = Inr None then 404
           else if loadAllHikes hikesDir = [] then 500
           else 200)"
proof (cases rawPostcode)
  case None
  then show ?thesis by (simp add: GET_def Let_def)
next
  case (Some raw)
  obtain r where r: "loadPostcodeRecord postcodes (normalisePostcode_route raw) = Inr r"
    using loadPostcodeRecord_Inr by blast
  show ?thesis
    by (cases r) (simp_all add: GET_def Let_def Some r)
qed


theorem GET_outcomes_witness:
  "(\<exists>resp. GET (Number_of [(''50'', 50), (''20'', 20), (''0'', 0)])
       (Some [(''S66-7RR.json'', JsonObject (postcodeAt ''S66 7RR'' 53 (-1.5) (Some True)))])
       (Some [(''c.json'', JsonObject (hikeAt ''c'' 54 (-1.5)))]) (Some ''s667rr'') None None = Inr resp \<and> status resp = 200 \<and> results resp = []) \<and>
   (\<exists>resp. GET (Number_of [(''50'', 50), (''20'', 20), (''0'', 0)])
       (Some [(''S66-7RR.json'', JsonObject (postcodeAt ''S66 7RR'' 53 (-1.5) (Some True)))])
       (Some [] :: hike directory) (Some ''s667rr'') None None = Inr resp \<and> status resp = 500) \<and>
   (\<exists>resp. GET (Number_of [(''50'', 50), (''20'', 20), (''0'', 0)])
       (Some [(''S66-7RR.json'', JsonObject (postcodeAt ''S66 7RR'' 53 (-1.5) (Some True)))])
       (Some [(''c.json'', JsonObject (hikeAt ''c'' 54 (-1.5)))]) (Some ''ab12cd'') None None = Inr resp \<and> status resp = 404) \<and>
   (\<exists>resp. GET (Number_of [(''50'', 50), (''20'', 20), (''0'', 0)])
       (Some [(''S66-7RR.json'', JsonObject (postcodeAt ''S66 7RR'' 53 (-1.5) (Some True)))])
       (Some [(''c.json'', JsonObject (hikeAt ''c'' 54 (-1.5)))]) (Some ''s667rr'') (Some ''0'') None = Inr resp \<and> status resp = 400) \<and>
   (\<exists>resp. GET (Number_of [(''50'', 50), (''20'', 20), (''0'', 0)])
       (Some [(''S66-7RR.json'', JsonObject (postcodeAt ''S66 7RR'' 53 (-1.5) (Some True)))])
       (Some [(''c.json'', JsonObject (hikeAt ''c'' 54 (-1.5)))]) (Some ''s667rr'') None (Some ''many'') = Inr resp \<and> status resp = 400)"
proof -
  let ?N = "Number_of [(''50'', 50), (''20'', 20), (''0'', 0)]"
  let ?P = "Some [(''S66-7RR.json'', JsonObject (postcodeAt ''S66 7RR'' 53 (-1.5) (Some True)))]"
  have n50: "?N ''50'' = Finite 50" and n20: "?N ''20'' = Finite 20" and n0: "?N ''0'' = Finite 0"
    and nm: "?N ''many'' = NaN" by simp_all
  have p1: "loadPostcodeRecord ?P (normalisePostcode_route ''s667rr'') = Inr (Some (postcodeAt ''S66 7RR'' 53 (-1.5) (Some True)))"
    by code_simp
  have p2: "loadPostcodeRecord ?P (normalisePostcode_route ''ab12cd'') = Inr None"
    by code_simp
  have h1: "loadAllHikes (Some [(''c.json'', JsonObject (hikeAt ''c'' 54 (-1.5)))]) = [hikeAt ''c'' 54 (-1.5)]" by code_simp
  have h0: "loadAllHikes (Some [] :: hike directory) = []" by code_simp
  have d: "haversineDistanceKm 53 (-1.5) 54 (-1.5) = 6371 * toRad 1" "30 < 6371 * toRad 1"
    using km_1deg by (simp_all add: haversine_route_eq)
  have "100 \<le> 6371 * toRad 1" using pi_ge_three by (simp add: toRad_def)
  then have far: "\<not> num_le (toFixed2 (Finite (6371 * toRad 1))) (Finite 50)"
    by (simp add: toFixed2_Finite)
  have sr: "searchResults (postcodeAt ''S66 7RR'' 53 (-1.5) (Some True)) [hikeAt ''c'' 54 (-1.5)] (Finite 50) (Finite 20) = []"
    using d far by (simp add: searchResults_def distanceOf_def distanceFromPostcodeKm_def js_sort_def sliceTo_Nil)
  have r1: "\<exists>resp. GET ?N ?P (Some [(''c.json'', JsonObject (hikeAt ''c'' 54 (-1.5)))]) (Some ''s667rr'') None None = Inr resp \<and> status resp = 200"
    using GET_outcomes[of ?N ?P "(Some [(''c.json'', JsonObject (hikeAt ''c'' 54 (-1.5)))])" "Some ''s667rr''" None None]
    unfolding Let_def option.case option.sel n50 n20 p1 h1 by (simp add: isNaN_def)
  have "GET ?N ?P (Some [(''c.json'', JsonObject (hikeAt ''c'' 54 (-1.5)))]) (Some ''s667rr'') None None =
      Inr (JsonOk ''S66 7RR'' (normalisePostcode_route ''s667rr'') (Finite 50) (Finite 20) 0 [])"
    using sr unfolding GET_def Let_def option.case n50 n20 p1 h1 by (simp add: isNaN_def)
  with r1 have a: "\<exists>resp. GET ?N ?P (Some [(''c.json'', JsonObject (hikeAt ''c'' 54 (-1.5)))]) (Some ''s667rr'') None None = Inr resp \<and> status resp = 200 \<and> results resp = []"
    by auto
  have b: "\<exists>resp. GET ?N ?P (Some [] :: hike directory) (Some ''s667rr'') None None = Inr resp \<and> status resp = 500"
    using GET_outcomes[of ?N ?P "(Some [] :: hike directory)" "Some ''s667rr''" None None]
    unfolding Let_def option.case option.sel n50 n20 p1 h0 by (simp add: isNaN_def)
  have c: "\<exists>resp. GET ?N ?P (Some [(''c.json'', JsonObject (hikeAt ''c'' 54 (-1.5)))]) (Some ''ab12cd'') None None = Inr resp \<and> status resp = 404"
    using GET_outcomes[of ?N ?P "(Some [(''c.json'', JsonObject (hikeAt ''c'' 54 (-1.5)))])" "Some ''ab12cd''" None None]
    unfolding Let_def option.case option.sel n50 n20 p2 by (simp add: isNaN_def)
  have d4: "\<exists>resp. GET ?N ?P (Some [(''c.json'', JsonObject (hikeAt ''c'' 54 (-1.5)))]) (Some ''s667rr'') (Some ''0'') None = Inr resp \<and> status resp = 400"
    using GET_outcomes[of ?N ?P "(Some [(''c.json'', JsonObject (hikeAt ''c'' 54 (-1.5)))])" "Some ''s667rr''" "Some ''0''" None]
    unfolding Let_def option.case option.sel n0 n20 by (simp add: isNaN_def)
  have e: "\<exists>resp. GET ?N ?P (Some [(''c.json'', JsonObject (hikeAt ''c'' 54 (-1.5)))]) (Some ''s667rr'') None (Some ''many'') = Inr resp \<and> status resp = 400"
    using GET_outcomes[of ?N ?P "(Some [(''c.json'', JsonObject (hikeAt ''c'' 54 (-1.5)))])" "Some ''s667rr''" None "Some ''many''"]
    unfolding Let_def option.case option.sel n50 nm by (simp add: isNaN_def)
  from a b c d4 e show ?thesis by blast
qed


section \<open>Distances of the example hikes\<close>


lemma km_47: "haversineKm 53 (-1.5) 100 (-1.5) = 6371 * toRad 47" "6371 * toRad 47 \<le> 7000"
proof -
  show "haversineKm 53 (-1.5) 100 (-1.5) = 6371 * toRad 47"
    using haversineKm_same_lon[of 100 53 "-1.5"] by simp
  show "6371 * toRad 47 \<le> 7000" using pi_less_4 by (simp add: toRad_def)
qed






section \<open>The output contract of the searches\<close>




section \<open>Which records take part in a search\<close>

text \<open>
  C4, as stated, fails: no range check exists. A hike whose latitude is 100 takes part
  in the trail-anchored search and is returned.
\<close>

theorem getNearbyHikes_accepts_latitude_100:
  "getNearbyHikes (Some [(''a.json'', JsonObject (hikeAt ''a'' 53 (-1.5))), (''b.json'', JsonObject (hikeAt ''b'' 100 (-1.5)))]) ''a'' (Finite 7000) (Finite 4)
     = Inr [(hikeAt ''b'' 100 (-1.5), Finite (haversineKm 53 (-1.5) 100 (-1.5)))]"
proof -
  have c: "getHikeBySlug (Some [(''a.json'', JsonObject (hikeAt ''a'' 53 (-1.5))), (''b.json'', JsonObject (hikeAt ''b'' 100 (-1.5)))]) ''a'' = Some (hikeAt ''a'' 53 (-1.5))"
    by code_simp
  have f: "filter hasNumericStart (filter (\<lambda>h. slug h \<noteq> ''a'')
             (getAllHikes (Some [(''a.json'', JsonObject (hikeAt ''a'' 53 (-1.5))), (''b.json'', JsonObject (hikeAt ''b'' 100 (-1.5)))]))) = [hikeAt ''b'' 100 (-1.5)]"
    by code_simp
  have "getNearbyHikes (Some [(''a.json'', JsonObject (hikeAt ''a'' 53 (-1.5))), (''b.json'', JsonObject (hikeAt ''b'' 100 (-1.5)))]) ''a'' (Finite 7000) (Finite 4) =
     Inr (sliceTo (js_sort (\<lambda>a b. num_sub (snd a) (snd b))
            (filter (\<lambda>h. num_le (snd h) (Finite 7000))
               (map (\<lambda>h. (h, distanceOf haversineKm (Some 53) (Some (-1.5)) (lat (the (start h))) (lon (the (start h)))))
                  [hikeAt ''b'' 100 (-1.5)]))) (Finite 4))"
    using getNearbyHikes_eval[OF c _ f, of "\<lparr>lat = Some 53, lon = Some (-1.5)\<rparr>"] by simp
  also have "\<dots> = Inr [(hikeAt ''b'' 100 (-1.5), Finite (haversineKm 53 (-1.5) 100 (-1.5)))]"
    using km_47 by (simp add: distanceOf_def js_sort_def sliceTo_pos_Finite)
  finally show ?thesis .
qed

text \<open>
  C4, amended. A trail record takes part in a search only if \<^verbatim>\<open>start.lat\<close> and
  \<^verbatim>\<open>start.lon\<close> are both numbers, whatever their values. The route loads only such
  records, never raises, and returns only such records; the trail-anchored search
  returns only such records, and does not raise whenever the reference hike, if it is
  found, has a \<^verbatim>\<open>start\<close> object.
\<close>

theorem search_participation:
  fixes postcodes :: "'b postcodeRecord_scheme directory"
  shows
  "(\<forall>h\<in>set (loadAllHikes hikesDir). hasNumericStart h) \<and>
   (\<exists>resp. GET Number postcodes hikesDir rawPostcode distanceParam limitParam = Inr resp \<and>
      (\<forall>r\<in>set (results resp). fst r \<in> set (loadAllHikes hikesDir) \<and> hasNumericStart (fst r))) \<and>
   (getNearbyHikes dir slug' maxDistanceKm lmt = Inr rs \<longrightarrow> (\<forall>r\<in>set rs. hasNumericStart (fst r))) \<and>
   ((\<forall>center. getHikeBySlug dir slug' = Some center \<longrightarrow> start center \<noteq> None) \<longrightarrow>
      (\<exists>rs. getNearbyHikes dir slug' maxDistanceKm lmt = Inr rs))"
proof (intro conjI impI)
  show "\<forall>h\<in>set (loadAllHikes hikesDir). hasNumericStart h" by (rule loadAllHikes_numeric)
next
  obtain resp where resp: "GET Number postcodes hikesDir rawPostcode distanceParam limitParam = Inr resp"
    using GET_total by blast
  have "\<forall>r\<in>set (results resp). fst r \<in> set (loadAllHikes hikesDir) \<and> hasNumericStart (fst r)"
  proof (cases resp)
    case (JsonError msg st)
    then show ?thesis by simp
  next
    case (JsonOk pc npc m l n rs')
    from GET_ok[OF resp[unfolded JsonOk]] obtain pcr :: "'b postcodeRecord_scheme" where
      "rs' = searchResults pcr (loadAllHikes hikesDir) m l" by blast
    then have "\<forall>r\<in>set rs'. fst r \<in> set (loadAllHikes hikesDir)"
      using searchResults_props(1)[where pcr = pcr and hikes = "loadAllHikes hikesDir" and m = m and lmt = l] by blast
    then show ?thesis using JsonOk loadAllHikes_numeric by auto
  qed
  with resp show "\<exists>resp. GET Number postcodes hikesDir rawPostcode distanceParam limitParam = Inr resp \<and>
      (\<forall>r\<in>set (results resp). fst r \<in> set (loadAllHikes hikesDir) \<and> hasNumericStart (fst r))" by blast
next
  assume "getNearbyHikes dir slug' maxDistanceKm lmt = Inr rs"
  from getNearbyHikes_props(3)[OF this] show "\<forall>r\<in>set rs. hasNumericStart (fst r)" by blast
next
  assume "\<forall>center. getHikeBySlug dir slug' = Some center \<longrightarrow> start center \<noteq> None"
  then show "\<exists>rs. getNearbyHikes dir slug' maxDistanceKm lmt = Inr rs" by (rule getNearbyHikes_no_throw)
qed

theorem search_participation_witness:
  "(\<exists>rs. getNearbyHikes
      (Some [(''a.json'', JsonObject (hikeAt ''a'' 53 (-1.5))),
             (''n.json'', JsonObject \<lparr>slug = ''n'', name = ''n'', start = None\<rparr>),
             (''m.json'', JsonObject \<lparr>slug = ''m'', name = ''m'', start = Some \<lparr>lat = None, lon = Some 0\<rparr>\<rparr>),
             (''x.json'', Unparseable), (''y.json'', JsonNull),
             (''b.json'', JsonObject (hikeAt ''b'' 53 (-1.5)))]) ''a'' (Finite 30) (Finite 4) = Inr rs \<and>
      (\<forall>r\<in>set rs. hasNumericStart (fst r))) \<and>
   loadAllHikes
      (Some [(''a.json'', JsonObject (hikeAt ''a'' 53 (-1.5))),
             (''n.json'', JsonObject \<lparr>slug = ''n'', name = ''n'', start = None\<rparr>),
             (''m.json'', JsonObject \<lparr>slug = ''m'', name = ''m'', start = Some \<lparr>lat = None, lon = Some 0\<rparr>\<rparr>),
             (''x.json'', Unparseable), (''y.json'', JsonNull),
             (''b.json'', JsonObject (hikeAt ''b'' 53 (-1.5)))]) = [hikeAt ''a'' 53 (-1.5), hikeAt ''b'' 53 (-1.5)] \<and>
   hasNumericStart (hikeAt ''a'' 53 (-1.5))"
proof -
  let ?dir = "Some [(''a.json'', JsonObject (hikeAt ''a'' 53 (-1.5))),
             (''n.json'', JsonObject \<lparr>slug = ''n'', name = ''n'', start = None\<rparr>),
             (''m.json'', JsonObject \<lparr>slug = ''m'', name = ''m'', start = Some \<lparr>lat = None, lon = Some 0\<rparr>\<rparr>),
             (''x.json'', Unparseable), (''y.json'', JsonNull),
             (''b.json'', JsonObject (hikeAt ''b'' 53 (-1.5)))]"
  have c: "getHikeBySlug ?dir ''a'' = Some (hikeAt ''a'' 53 (-1.5))" by code_simp
  have l: "loadAllHikes ?dir = [hikeAt ''a'' 53 (-1.5), hikeAt ''b'' 53 (-1.5)]" by code_simp
  have "\<forall>center. getHikeBySlug ?dir ''a'' = Some center \<longrightarrow> start center \<noteq> None"
    unfolding c by simp
  with search_participation[where dir = ?dir and slug' = "''a''" and maxDistanceKm = "Finite 30" and lmt = "Finite 4"]
  obtain rs where rs: "getNearbyHikes ?dir ''a'' (Finite 30) (Finite 4) = Inr rs" by blast
  with search_participation[where dir = ?dir and slug' = "''a''" and maxDistanceKm = "Finite 30" and lmt = "Finite 4" and rs = rs]
  have n: "\<forall>r\<in>set rs. hasNumericStart (fst r)" by blast
  have "hikeAt ''a'' 53 (-1.5) \<in> set (loadAllHikes ?dir)" unfolding l by simp
  from search_participation[where hikesDir = ?dir, THEN conjunct1, THEN bspec, OF this]
  have a: "hasNumericStart (hikeAt ''a'' 53 (-1.5))" .
  from rs n have "\<exists>rs. getNearbyHikes ?dir ''a'' (Finite 30) (Finite 4) = Inr rs \<and>
      (\<forall>r\<in>set rs. hasNumericStart (fst r))" by blast
  with l a show ?thesis by (intro conjI)
qed

text \<open>
  The hypothesis on the reference hike is needed: when its file has no \<^verbatim>\<open>start\<close> and
  another hike is a candidate, reading \<^verbatim>\<open>center.start.lat\<close> raises.
\<close>

lemma getNearbyHikes_reference_without_start:
  "getNearbyHikes (Some [(''a.json'', JsonObject \<lparr>slug = ''a'', name = ''a'', start = None\<rparr>),
                         (''b.json'', JsonObject (hikeAt ''b'' 53 (-1.5)))]) ''a'' (Finite 30) (Finite 4)
     = Inl TypeError"
proof -
  let ?dir = "Some [(''a.json'', JsonObject \<lparr>slug = ''a'', name = ''a'', start = None\<rparr>),
                    (''b.json'', JsonObject (hikeAt ''b'' 53 (-1.5)))]"
  have c: "getHikeBySlug ?dir ''a'' = Some \<lparr>slug = ''a'', name = ''a'', start = None\<rparr>" by code_simp
  have f: "filter hasNumericStart (filter (\<lambda>h. slug h \<noteq> ''a'') (getAllHikes ?dir)) = [hikeAt ''b'' 53 (-1.5)]"
    by code_simp
  show ?thesis unfolding getNearbyHikes_def Let_def c f by simp
qed

section \<open>The distance annotation\<close>




section \<open>Self-exclusion in the trail-anchored search\<close>




section \<open>The row counts of the preprocessing\<close>

lemma processLine_accounted:
  assumes "processLine Number st line = Inr st'" and "rowsAccounted st"
  shows "rowsAccounted st'"
  using assms
  by (auto simp: processLine_def rowsAccounted_def Let_def
      split: if_splits option.splits prod.splits)

lemma processLines_accounted:
  assumes "processLines Number st lines = Inr st'" and "rowsAccounted st"
  shows "rowsAccounted st'"
  using assms
proof (induction lines arbitrary: st)
  case Nil
  then show ?case by simp
next
  case (Cons line rest)
  from Cons.prems(1) obtain st1 where s: "processLine Number st line = Inr st1"
    and r: "processLines Number st1 rest = Inr st'"
    by (auto split: sum.splits)
  from processLine_accounted[OF s Cons.prems(2)] have "rowsAccounted st1" .
  with Cons.IH[OF r] show ?case .
qed

text \<open>
  C9. For every table on which the preprocessing runs to completion (it does not stop at
  a missing table or a missing header row), the counters of the summary satisfy
  \<^verbatim>\<open>totalRows = writtenByCode + skippedNoPostcode + skippedNoCoords\<close>.
\<close>

theorem preprocess_row_count:
  assumes "preprocess Number csv = Inr st"
  shows "totalRows st = writtenByCode st + skippedNoPostcode st + skippedNoCoords st"
proof -
  from assms obtain lines where "csv = Some lines" and r: "processLines Number initialState lines = Inr st"
    by (auto simp: preprocess_def split: option.splits)
  have "rowsAccounted initialState" by (simp add: rowsAccounted_def initialState_def)
  with processLines_accounted[OF r] show ?thesis by (simp add: rowsAccounted_def)
qed

theorem preprocess_row_count_witness:
  "(\<exists>st. preprocess (Number_of [(''53.4'', 53.4), (''-1.2'', -1.2)])
          (Some [''Postcode,In Use?,Latitude,Longitude'', ''s66 7rr,Yes,53.4,-1.2'', Nil,
                 '',Yes,53.4,-1.2'', ''ab1 2cd,No,,-1.2'', ''zz11zz,,53.4,-1.2'']) = Inr st \<and>
      totalRows st = 4 \<and> writtenByCode st = 2 \<and> skippedNoPostcode st = 1 \<and> skippedNoCoords st = 1) \<and>
   preprocess (Number_of [(''53.4'', 53.4), (''-1.2'', -1.2)])
          (Some [Nil, ''s66 7rr,Yes,53.4,-1.2'']) = Inl (Exit 1)"
proof -
  let ?N = "Number_of [(''53.4'', 53.4), (''-1.2'', -1.2)]"
  let ?csv = "Some [''Postcode,In Use?,Latitude,Longitude'', ''s66 7rr,Yes,53.4,-1.2'', Nil,
                 '',Yes,53.4,-1.2'', ''ab1 2cd,No,,-1.2'', ''zz11zz,,53.4,-1.2'']"
  have "case preprocess ?N ?csv of
          Inl err \<Rightarrow> False
        | Inr st \<Rightarrow> writtenByCode st = 2 \<and> skippedNoPostcode st = 1 \<and> skippedNoCoords st = 1"
    by code_simp
  then obtain st where st: "preprocess ?N ?csv = Inr st"
      "writtenByCode st = 2" "skippedNoPostcode st = 1" "skippedNoCoords st = 1"
    by (cases "preprocess ?N ?csv") auto
  from preprocess_row_count[OF st(1)] st(2-4) have "totalRows st = 4" by simp
  with st have a: "\<exists>st. preprocess ?N ?csv = Inr st \<and>
      totalRows st = 4 \<and> writtenByCode st = 2 \<and> skippedNoPostcode st = 1 \<and> skippedNoCoords st = 1"
    by blast
  have "case preprocess ?N (Some [Nil, ''s66 7rr,Yes,53.4,-1.2'']) of
          Inl err \<Rightarrow> err = Exit 1
        | Inr st \<Rightarrow> False"
    by code_simp
  then have b: "preprocess ?N (Some [Nil, ''s66 7rr,Yes,53.4,-1.2'']) = Inl (Exit 1)"
    by (cases "preprocess ?N (Some [Nil, ''s66 7rr,Yes,53.4,-1.2''])") auto
  from a b show ?thesis by (rule conjI)
qed

section \<open>The frame of the enrichment\<close>

lemma filter_update_other: "filter (\<lambda>kv. fst kv \<noteq> k) (AList.update k v al) = filter (\<lambda>kv. fst kv \<noteq> k) al"
  by (induction al) auto

lemma withAi_onlyAiAttached: "onlyAiAttached h ai (withAi h ai)"
  by (simp add: onlyAiAttached_def withAi_def update_conv' filter_update_other)

lemma onlyAiAttached_other_keys:
  assumes "onlyAiAttached h ai written" and "k \<noteq> ''ai''"
  shows "map_of written k = map_of h k"
proof -
  have m: "map_of (filter (\<lambda>kv. fst kv \<noteq> ''ai'') xs) k = map_of xs k" for xs :: jsonObject
    using assms(2) by (induction xs) auto
  from assms(1) have "filter (\<lambda>kv. fst kv \<noteq> ''ai'') written = filter (\<lambda>kv. fst kv \<noteq> ''ai'') h"
    by (simp add: onlyAiAttached_def)
  then have "map_of (filter (\<lambda>kv. fst kv \<noteq> ''ai'') written) k = map_of (filter (\<lambda>kv. fst kv \<noteq> ''ai'') h) k"
    by simp
  then show ?thesis by (simp only: m)
qed

lemma saved_enrichOne: "saved (enrichOne e st h) = saved st @ savedBy e h"
  by (simp add: enrichOne_def savedBy_def saveHike_def Let_def split: option.splits prod.splits)

lemma saved_enrichOne_ci: "saved (enrichOne_ci e st h) = saved st @ savedBy e h"
  by (simp add: enrichOne_ci_def savedBy_def saveHike_def Let_def split: option.splits prod.splits)

lemma saved_foldl: "saved (foldl (enrichOne e) st hs) = saved st @ concat (map (savedBy e) hs)"
  by (induction hs arbitrary: st) (simp_all add: saved_enrichOne)

lemma saved_foldl_ci: "saved (foldl (enrichOne_ci e) st hs) = saved st @ concat (map (savedBy e) hs)"
  by (induction hs arbitrary: st) (simp_all add: saved_enrichOne_ci)

lemma slice_subset: "set (slice xs 0 e) \<subseteq> set xs"
  unfolding slice_zero by (rule set_take_subset)

lemma savedBy_frame:
  assumes "w \<in> set (concat (map (savedBy e) (slice (filter (\<lambda>h. \<not> shouldSkip h) hikes) 0 n)))"
  shows "\<exists>h ai i o'. h \<in> set hikes \<and> \<not> shouldSkip h \<and> e h = Some (ai, i, o') \<and>
           w = (slugFileName (withAi h ai), withAi h ai) \<and> onlyAiAttached h ai (snd w)"
proof -
  from assms have "\<exists>h\<in>set (slice (filter (\<lambda>h. \<not> shouldSkip h) hikes) 0 n). w \<in> set (savedBy e h)"
    unfolding set_concat set_map by blast
  then obtain h where h: "h \<in> set (slice (filter (\<lambda>h. \<not> shouldSkip h) hikes) 0 n)" and w: "w \<in> set (savedBy e h)"
    by blast
  have "h \<in> set (filter (\<lambda>h. \<not> shouldSkip h) hikes)" by (rule subsetD[OF slice_subset h])
  then have hh: "h \<in> set hikes" "\<not> shouldSkip h" by simp_all
  from w obtain r where r: "e h = Some r" by (cases "e h") (simp_all add: savedBy_def)
  obtain ai i o' where t: "r = (ai, i, o')" by (cases r) blast
  from w r t have weq: "w = (slugFileName (withAi h ai), withAi h ai)"
    by (simp add: savedBy_def)
  have "onlyAiAttached h ai (snd w)" unfolding weq snd_conv by (rule withAi_onlyAiAttached)
  with hh r t weq show ?thesis by blast
qed

text \<open>
  C10. In both versions of the batch, every object that \<^verbatim>\<open>saveHike\<close> writes is a hike
  that was read, was pending and was enriched, with the payload attached under \<^verbatim>\<open>ai\<close>:
  the written object maps \<^verbatim>\<open>ai\<close> to the payload, its other properties are exactly those
  of the hike read, in their order, and so every key but \<^verbatim>\<open>ai\<close> keeps its value.
\<close>

theorem enrichment_frame:
  "(\<forall>w\<in>set (saved (main enrichWithRetry MAX_PER_RUN files hikes)).
      \<exists>h ai i o'. h \<in> set hikes \<and> \<not> shouldSkip h \<and> enrichWithRetry h = Some (ai, i, o') \<and>
        w = (slugFileName (withAi h ai), withAi h ai) \<and> onlyAiAttached h ai (snd w)) \<and>
   (\<forall>w\<in>set (saved (main_ci enrichWithRetry MAX_PER_RUN files hikes)).
      \<exists>h ai i o'. h \<in> set hikes \<and> \<not> shouldSkip h \<and> enrichWithRetry h = Some (ai, i, o') \<and>
        w = (slugFileName (withAi h ai), withAi h ai) \<and> onlyAiAttached h ai (snd w)) \<and>
   (onlyAiAttached h ai written \<and> k \<noteq> ''ai'' \<longrightarrow> map_of written k = map_of h k)"
proof (intro conjI ballI impI)
  fix w assume "w \<in> set (saved (main enrichWithRetry MAX_PER_RUN files hikes))"
  then have "w \<in> set (concat (map (savedBy enrichWithRetry) (slice (filter (\<lambda>h. \<not> shouldSkip h) hikes) 0 (int MAX_PER_RUN))))"
    by (simp add: main_def Let_def saved_foldl split: if_splits)
  then show "\<exists>h ai i o'. h \<in> set hikes \<and> \<not> shouldSkip h \<and> enrichWithRetry h = Some (ai, i, o') \<and>
        w = (slugFileName (withAi h ai), withAi h ai) \<and> onlyAiAttached h ai (snd w)"
    by (rule savedBy_frame)
next
  fix w assume "w \<in> set (saved (main_ci enrichWithRetry MAX_PER_RUN files hikes))"
  then have "w \<in> set (concat (map (savedBy enrichWithRetry) (slice (filter (\<lambda>h. \<not> shouldSkip h) hikes) 0 (int MAX_PER_RUN))))"
    by (simp add: main_ci_def Let_def saved_foldl_ci split: if_splits)
  then show "\<exists>h ai i o'. h \<in> set hikes \<and> \<not> shouldSkip h \<and> enrichWithRetry h = Some (ai, i, o') \<and>
        w = (slugFileName (withAi h ai), withAi h ai) \<and> onlyAiAttached h ai (snd w)"
    by (rule savedBy_frame)
next
  assume "onlyAiAttached h ai written \<and> k \<noteq> ''ai''"
  then show "map_of written k = map_of h k" using onlyAiAttached_other_keys by blast
qed

theorem enrichment_frame_witness:
  "saved (main exampleEnrich 20 Map.empty
      [exampleHike ''a'' @ [(''ai'', JObject [(''summary'', JString ''old'')])], exampleHike ''b'', exampleHike ''c''])
     = [(''b.json'', exampleHike ''b'' @ [(''ai'', JObject [(''summary'', JString ''A walk'')])])] \<and>
   (\<exists>h ai i o'.
      h \<in> set [exampleHike ''a'' @ [(''ai'', JObject [(''summary'', JString ''old'')])], exampleHike ''b'', exampleHike ''c''] \<and>
      \<not> shouldSkip h \<and> exampleEnrich h = Some (ai, i, o') \<and>
      (''b.json'', exampleHike ''b'' @ [(''ai'', JObject [(''summary'', JString ''A walk'')])])
         = (slugFileName (withAi h ai), withAi h ai) \<and>
      onlyAiAttached h ai (exampleHike ''b'' @ [(''ai'', JObject [(''summary'', JString ''A walk'')])])) \<and>
   (\<exists>h ai i o'.
      h \<in> set [exampleHike ''a'' @ [(''ai'', JObject [(''summary'', JString ''old'')])], exampleHike ''b'', exampleHike ''c''] \<and>
      \<not> shouldSkip h \<and> exampleEnrich h = Some (ai, i, o') \<and>
      (''b.json'', exampleHike ''b'' @ [(''ai'', JObject [(''summary'', JString ''A walk'')])])
         = (slugFileName (withAi h ai), withAi h ai) \<and>
      onlyAiAttached h ai (exampleHike ''b'' @ [(''ai'', JObject [(''summary'', JString ''A walk'')])]) \<and>
      saved (main_ci exampleEnrich 20 Map.empty
        [exampleHike ''a'' @ [(''ai'', JObject [(''summary'', JString ''old'')])], exampleHike ''b'', exampleHike ''c''])
       = [(slugFileName (withAi h ai), withAi h ai)]) \<and>
   map_of (exampleHike ''b'' @ [(''ai'', JObject [(''summary'', JString ''A walk'')])]) ''start''
     = map_of (exampleHike ''b'') ''start''"
proof -
  let ?hs = "[exampleHike ''a'' @ [(''ai'', JObject [(''summary'', JString ''old'')])], exampleHike ''b'', exampleHike ''c'']"
  let ?w = "exampleHike ''b'' @ [(''ai'', JObject [(''summary'', JString ''A walk'')])]"
  have s: "saved (main exampleEnrich 20 Map.empty ?hs) = [(''b.json'', ?w)]" by code_simp
  then have "(''b.json'', ?w) \<in> set (saved (main exampleEnrich 20 Map.empty ?hs))" by simp
  from enrichment_frame[THEN conjunct1, THEN bspec, OF this]
  have e: "\<exists>h ai i o'. h \<in> set ?hs \<and> \<not> shouldSkip h \<and> exampleEnrich h = Some (ai, i, o') \<and>
      (''b.json'', ?w) = (slugFileName (withAi h ai), withAi h ai) \<and> onlyAiAttached h ai ?w"
    unfolding snd_conv .
  have o: "onlyAiAttached (exampleHike ''b'') (JObject [(''summary'', JString ''A walk'')]) ?w \<and> ''start'' \<noteq> ''ai''"
    by code_simp
  from enrichment_frame[THEN conjunct2, THEN conjunct2, THEN mp, OF o]
  have m: "map_of ?w ''start'' = map_of (exampleHike ''b'') ''start''" .
  have s2: "saved (main_ci exampleEnrich 20 Map.empty ?hs) = [(''b.json'', ?w)]" by code_simp
  then have "(''b.json'', ?w) \<in> set (saved (main_ci exampleEnrich 20 Map.empty ?hs))" by simp
  from enrichment_frame[THEN conjunct2, THEN conjunct1, THEN bspec, OF this]
  have "\<exists>h ai i o'. h \<in> set ?hs \<and> \<not> shouldSkip h \<and> exampleEnrich h = Some (ai, i, o') \<and>
      (''b.json'', ?w) = (slugFileName (withAi h ai), withAi h ai) \<and> onlyAiAttached h ai ?w"
    unfolding snd_conv .
  then have e2: "\<exists>h ai i o'. h \<in> set ?hs \<and> \<not> shouldSkip h \<and> exampleEnrich h = Some (ai, i, o') \<and>
      (''b.json'', ?w) = (slugFileName (withAi h ai), withAi h ai) \<and> onlyAiAttached h ai ?w \<and>
      saved (main_ci exampleEnrich 20 Map.empty ?hs) = [(slugFileName (withAi h ai), withAi h ai)]"
    unfolding s2 by metis
  from s e e2 m show ?thesis by (intro conjI)
qed

end
